theory Spec2Isabelle
  imports Main "HOL-Library.Word" "HOL-Library.Signed_Division"
begin

unbundle bit_operations_syntax

section \<open>Bytes and fixed-width fields\<close>

text \<open>
  The program reads and writes its headers by copying packed structs to and from byte
  buffers (\<^verbatim>\<open>file.read(reinterpret_cast<char*>(&s), sizeof(s))\<close>, \<^verbatim>\<open>memcpy\<close>). On the
  little-endian targets the program is built for, a packed struct is the concatenation of
  its fields in declaration order, each field least significant byte first. The
  functions below are that layout: \<open>le_nat\<close> reads a little-endian run of bytes,
  \<open>le_bytes n\<close> writes a value into \<open>n\<close> bytes.
\<close>

type_synonym byte = "8 word"
type_synonym u16 = "16 word"
type_synonym u32 = "32 word"

primrec le_nat :: "byte list \<Rightarrow> nat" where
  "le_nat [] = 0"
| "le_nat (b # bs) = unat b + 256 * le_nat bs"

primrec le_bytes :: "nat \<Rightarrow> nat \<Rightarrow> byte list" where
  "le_bytes 0 v = []"
| "le_bytes (Suc n) v = word_of_nat (v mod 256) # le_bytes n (v div 256)"

definition le16 :: "byte list \<Rightarrow> u16" where
  "le16 bs = word_of_nat (le_nat (take 2 bs))"

definition le32 :: "byte list \<Rightarrow> u32" where
  "le32 bs = word_of_nat (le_nat (take 4 bs))"

definition bytes16 :: "u16 \<Rightarrow> byte list" where
  "bytes16 w = le_bytes 2 (unat w)"

definition bytes32 :: "u32 \<Rightarrow> byte list" where
  "bytes32 w = le_bytes 4 (unat w)"

section \<open>The icon class (icon.hpp, icon.cpp)\<close>

text \<open>\<^verbatim>\<open>struct PACKED header\<close>: ICONDIR, 6 bytes.\<close>

record header =
  reserved :: u16
  type :: u16
  entries_count :: u16

text \<open>\<^verbatim>\<open>struct PACKED icon_entry\<close>: ICONDIRENTRY, 16 bytes.\<close>

record icon_entry =
  width :: byte
  height :: byte
  color_count :: byte
  reserved :: byte
  planes :: u16
  bit_count :: u16
  image_size :: u32
  image_offset :: u32

text \<open>\<^verbatim>\<open>struct PACKED entry\<close>: RESDIR, 14 bytes.\<close>

record entry =
  width :: byte
  height :: byte
  color_count :: byte
  reserved :: byte
  planes :: u16
  bit_count :: u16
  resource_size :: u32
  icon_id :: u16

text \<open>The three data members of \<^verbatim>\<open>class icon\<close>.\<close>

record icon =
  resource_header :: header
  resource_entries :: "entry list"
  images :: "byte list list"


text \<open>
  What the program throws, one constructor for each \<^verbatim>\<open>throw\<close> of the source, named
  after the error of the specification it stands for:
  \<^item> \<open>SourceUnavailable\<close>: \<^verbatim>\<open>invalid_argument\<close> "Failed to open ..." (icon and bitmap);
  \<^item> \<open>TruncatedHeader\<close>: \<^verbatim>\<open>runtime_error\<close> "Failed to read icon header from file.";
  \<^item> \<open>InvalidHeaderReserved\<close>: "Header reserved bytes are 0x.., expecting 0x0!";
  \<^item> \<open>WrongContainerType\<close>: "Image is of CUR type, not ICO!";
  \<^item> \<open>InvalidContainerType\<close>: "Image type 0x.. is invalid!";
  \<^item> \<open>NoImageEntries\<close>: "Icon does not have image entries!";
  \<^item> \<open>TruncatedEntryTable\<close>: "Failed to read icon entry data from file.";
  \<^item> \<open>InvalidEntryReserved\<close>: "Entry's reserved byte is 0x.., excepting 0x0!";
  \<^item> \<open>InvalidEntryPlanes\<close>: "Entry's color planes is 0x.., expecting 0x0 or 0x1!";
  \<^item> \<open>TruncatedImageData\<close>: "Failed to read icon image data from file.";
  \<^item> \<open>AssertionFailed\<close>: a failing \<^verbatim>\<open>assert\<close> of \<^verbatim>\<open>convert_entries\<close>;
  \<^item> \<open>NotABitmap\<close>: \<^verbatim>\<open>runtime_error\<close> "Not a valid BMP file: ...";
  \<^item> \<open>UnsupportedCompression\<close>: "Unsupported BMP compression: ...";
  \<^item> \<open>UnsupportedBitmapFormat\<close>: "Bitmap must be valid and 24-bit to save as ICO.";
  \<^item> \<open>DestinationUnavailable\<close>: "Failed to write ICO file: ...";
  \<^item> \<open>LengthError\<close>: the \<^verbatim>\<open>std::length_error\<close> of a \<^verbatim>\<open>std::vector\<close> asked for more
    than \<^verbatim>\<open>max_size()\<close> elements;
  \<^item> \<open>OutOfBounds\<close>: an access outside a vector's storage (undefined behaviour in C++);
  \<^item> \<open>FailedToLoad\<close>, \<open>FailedToSave\<close>: the \<^verbatim>\<open>runtime_error\<close>s of \<^verbatim>\<open>from_bmp\<close> for a
    \<^verbatim>\<open>false\<close> result of the bitmap operations.
\<close>

datatype error =
    SourceUnavailable
  | TruncatedHeader
  | InvalidHeaderReserved u16
  | WrongContainerType
  | InvalidContainerType u16
  | NoImageEntries
  | TruncatedEntryTable
  | InvalidEntryReserved byte
  | InvalidEntryPlanes u16
  | TruncatedImageData
  | AssertionFailed
  | NotABitmap
  | UnsupportedCompression
  | UnsupportedBitmapFormat
  | DestinationUnavailable
  | LengthError
  | OutOfBounds
  | FailedToLoad
  | FailedToSave

subsection \<open>The input stream of the icon reader\<close>

text \<open>
  \<^verbatim>\<open>open_file\<close> fails when the file cannot be opened (here: no contents, \<open>None\<close>) and
  otherwise arms the stream's exceptions for \<^verbatim>\<open>failbit\<close> and \<^verbatim>\<open>badbit\<close>. The icon reader
  only ever reads forward, so its stream is the list of bytes not yet consumed, and a
  \<^verbatim>\<open>read\<close> of \<open>n\<close> bytes either delivers exactly \<open>n\<close> bytes or raises
  \<^verbatim>\<open>ios_base::failure\<close> (\<open>None\<close>), which each caller catches and rethrows.
\<close>

definition open_file :: "byte list option \<Rightarrow> error + byte list" where
  "open_file file_path =
     (case file_path of None \<Rightarrow> Inl SourceUnavailable | Some bs \<Rightarrow> Inr bs)"

definition file_read :: "nat \<Rightarrow> byte list \<Rightarrow> (byte list \<times> byte list) option" where
  "file_read n file = (if n \<le> length file then Some (take n file, drop n file) else None)"

subsection \<open>Struct layouts\<close>

definition decode_header :: "byte list \<Rightarrow> header" where
  "decode_header bs =
     \<lparr>header.reserved = le16 bs, type = le16 (drop 2 bs), entries_count = le16 (drop 4 bs)\<rparr>"

definition decode_icon_entry :: "byte list \<Rightarrow> icon_entry" where
  "decode_icon_entry bs =
     \<lparr>icon_entry.width = word_of_nat (le_nat (take 1 bs)),
      icon_entry.height = word_of_nat (le_nat (take 1 (drop 1 bs))),
      icon_entry.color_count = word_of_nat (le_nat (take 1 (drop 2 bs))),
      icon_entry.reserved = word_of_nat (le_nat (take 1 (drop 3 bs))),
      icon_entry.planes = le16 (drop 4 bs),
      icon_entry.bit_count = le16 (drop 6 bs),
      image_size = le32 (drop 8 bs),
      image_offset = le32 (drop 12 bs)\<rparr>"

text \<open>\<^verbatim>\<open>serialize(const header&)\<close>: \<^verbatim>\<open>sizeof(header)\<close> bytes copied from the struct.\<close>

definition serialize_header :: "header \<Rightarrow> byte list" where
  "serialize_header h =
     bytes16 (header.reserved h) @ bytes16 (type h) @ bytes16 (entries_count h)"

text \<open>\<^verbatim>\<open>serialize(const entry&)\<close>: \<^verbatim>\<open>sizeof(entry)\<close> bytes copied from the struct.\<close>

definition serialize_entry :: "entry \<Rightarrow> byte list" where
  "serialize_entry e =
     [entry.width e, entry.height e, entry.color_count e, entry.reserved e]
     @ bytes16 (entry.planes e) @ bytes16 (entry.bit_count e)
     @ bytes32 (resource_size e) @ bytes16 (icon_id e)"

subsection \<open>Reading and validating\<close>

text \<open>
  \<^verbatim>\<open>icon::read_header\<close>. The header member is overwritten by the read, then checked field
  by field; each check throws.
\<close>

definition read_header :: "byte list \<Rightarrow> icon \<Rightarrow> error + (byte list \<times> icon)" where
  "read_header file ic =
     (case file_read 6 file of
        None \<Rightarrow> Inl TruncatedHeader
      | Some (bs, file') \<Rightarrow>
          let ic' = ic\<lparr>resource_header := decode_header bs\<rparr>;
              h = resource_header ic'
          in if 0 \<noteq> header.reserved h then Inl (InvalidHeaderReserved (header.reserved h))
             else if 2 = type h then Inl WrongContainerType
             else if 1 \<noteq> type h then Inl (InvalidContainerType (type h))
             else if 0 = entries_count h then Inl NoImageEntries
             else Inr (file', ic'))"

text \<open>The \<open>n\<close> packed 16-byte records of one block of bytes.\<close>

primrec decode_entries :: "nat \<Rightarrow> byte list \<Rightarrow> icon_entry list" where
  "decode_entries 0 bs = []"
| "decode_entries (Suc n) bs = decode_icon_entry (take 16 bs) # decode_entries n (drop 16 bs)"

text \<open>
  \<^verbatim>\<open>icon::read_icon_entries\<close>: the header, then \<^verbatim>\<open>entries_count\<close> records read as one
  block of \<^verbatim>\<open>entries.size() * sizeof(icon_entry)\<close> bytes.
\<close>

definition read_icon_entries ::
  "byte list \<Rightarrow> icon \<Rightarrow> error + (icon_entry list \<times> byte list \<times> icon)" where
  "read_icon_entries file ic =
     (case read_header file ic of
        Inl e \<Rightarrow> Inl e
      | Inr (file1, ic1) \<Rightarrow>
          let n = unat (entries_count (resource_header ic1)) in
          (case file_read (n * 16) file1 of
             None \<Rightarrow> Inl TruncatedEntryTable
           | Some (bs, file2) \<Rightarrow> Inr (decode_entries n bs, file2, ic1)))"

text \<open>
  \<^verbatim>\<open>icon::read_images\<close>: one iteration of the range-for loop per equation. The stream is
  never repositioned: neither this function nor any other reads \<^verbatim>\<open>image_offset\<close>.
\<close>

fun read_images :: "byte list \<Rightarrow> icon_entry list \<Rightarrow> icon \<Rightarrow> error + (byte list \<times> icon)" where
  "read_images file [] ic = Inr (file, ic)"
| "read_images file (entry # entries) ic =
     (if 0 \<noteq> icon_entry.reserved entry then Inl (InvalidEntryReserved (icon_entry.reserved entry))
      else if 0 \<noteq> icon_entry.planes entry \<and> 1 \<noteq> icon_entry.planes entry
        then Inl (InvalidEntryPlanes (icon_entry.planes entry))
      else
        (case file_read (unat (image_size entry)) file of
           None \<Rightarrow> Inl TruncatedImageData
         | Some (img, file') \<Rightarrow>
             read_images file' entries (ic\<lparr>images := images ic @ [img]\<rparr>)))"

text \<open>
  \<^verbatim>\<open>icon::convert_entries\<close>: the loop with its counter \<^verbatim>\<open>std::uint16_t icon_id\<close> (here \<open>id_counter\<close>), which
  \<^verbatim>\<open>++icon_id\<close> increments (modulo \<open>2^16\<close>) before it is stored. The two \<^verbatim>\<open>assert\<close>s are
  branches of the model.
\<close>

fun convert_loop :: "icon_entry list \<Rightarrow> u16 \<Rightarrow> icon \<Rightarrow> error + icon" where
  "convert_loop [] id_counter ic = Inr ic"
| "convert_loop (icon_entry # entries) id_counter ic =
     (if \<not> (0 = icon_entry.reserved icon_entry) then Inl AssertionFailed
      else if \<not> (0 = icon_entry.planes icon_entry \<or> 1 = icon_entry.planes icon_entry)
        then Inl AssertionFailed
      else
        let id_counter' = id_counter + 1;
            entry = \<lparr>entry.width = icon_entry.width icon_entry,
                     entry.height = icon_entry.height icon_entry,
                     entry.color_count = icon_entry.color_count icon_entry,
                     entry.reserved = icon_entry.reserved icon_entry,
                     entry.planes = icon_entry.planes icon_entry,
                     entry.bit_count = icon_entry.bit_count icon_entry,
                     resource_size = image_size icon_entry,
                     icon_id = id_counter'\<rparr>
        in convert_loop entries id_counter' (ic\<lparr>resource_entries := resource_entries ic @ [entry]\<rparr>))"

definition convert_entries :: "icon_entry list \<Rightarrow> icon \<Rightarrow> error + icon" where
  "convert_entries entries ic = convert_loop entries 0 ic"

text \<open>The constructor \<^verbatim>\<open>icon::icon(file_path)\<close>, from empty members.\<close>

definition empty_icon :: icon where
  "empty_icon =
     \<lparr>resource_header = \<lparr>header.reserved = 0, type = 0, entries_count = 0\<rparr>,
      resource_entries = [], images = []\<rparr>"

definition icon_ctor :: "byte list option \<Rightarrow> error + icon" where
  "icon_ctor file_path =
     (case open_file file_path of
        Inl e \<Rightarrow> Inl e
      | Inr file \<Rightarrow>
          (case read_icon_entries file empty_icon of
             Inl e \<Rightarrow> Inl e
           | Inr (entries, file1, ic1) \<Rightarrow>
               (case read_images file1 entries ic1 of
                  Inl e \<Rightarrow> Inl e
                | Inr (file2, ic2) \<Rightarrow> convert_entries entries ic2)))"

text \<open>\<^verbatim>\<open>icon::get_header\<close>: the header's bytes, then each entry's bytes appended in turn.\<close>

fun get_header_loop :: "entry list \<Rightarrow> byte list \<Rightarrow> byte list" where
  "get_header_loop [] serialized_header = serialized_header"
| "get_header_loop (e # es) serialized_header =
     get_header_loop es (serialized_header @ serialize_entry e)"

definition get_header :: "icon \<Rightarrow> byte list" where
  "get_header ic = get_header_loop (resource_entries ic) ([] @ serialize_header (resource_header ic))"

definition get_images :: "icon \<Rightarrow> byte list list" where
  "get_images ic = images ic"

section \<open>The bitmap class (bitmap.hpp, bitmap.cpp)\<close>

subsection \<open>Machine arithmetic\<close>

text \<open>
  The members \<^verbatim>\<open>width\<close>, \<^verbatim>\<open>height\<close> and \<^verbatim>\<open>bitDepth\<close> are C++ \<^verbatim>\<open>int\<close>s, the sizes are
  \<^verbatim>\<open>std::size_t\<close>. The model is for the 64-bit targets the program is built for: \<^verbatim>\<open>int\<close> has
  32 bits, \<^verbatim>\<open>std::size_t\<close> has 64. Values are kept as \<open>int\<close> and \<open>nat\<close>, and each operation of
  the source is followed by the reduction to its type: \<open>int32\<close> after an \<^verbatim>\<open>int\<close> operation,
  \<open>size_t\<close> for the conversion of an \<^verbatim>\<open>int\<close> to \<^verbatim>\<open>std::size_t\<close>, \<open>mod 2 ^ 64\<close> after a
  \<^verbatim>\<open>std::size_t\<close> operation. Overflow of a signed operation is undefined in C++; the model
  lets it wrap around, and no theorem below depends on the value of an overflowing
  operation. \<^verbatim>\<open>/\<close> truncates towards zero (\<open>sdiv\<close>).

  A \<^verbatim>\<open>std::vector\<close> asked for more than \<^verbatim>\<open>max_size()\<close> elements throws
  \<^verbatim>\<open>std::length_error\<close>; for a vector of bytes on these targets \<^verbatim>\<open>max_size()\<close> is
  \<open>2^63 - 1\<close>. Memory is assumed sufficient for every smaller request.
\<close>

definition int32 :: "int \<Rightarrow> int" where
  "int32 x = (x + 2 ^ 31) mod 2 ^ 32 - 2 ^ 31"

definition size_t :: "int \<Rightarrow> nat" where
  "size_t x = nat (x mod 2 ^ 64)"

definition vector_max_size :: nat where
  "vector_max_size = 2 ^ 63 - 1"

text \<open>\<^verbatim>\<open>v.resize(n)\<close> on a vector of bytes: new elements are zero.\<close>

definition resize :: "nat \<Rightarrow> byte list \<Rightarrow> byte list" where
  "resize n v = take n v @ replicate (n - length v) 0"

subsection \<open>Headers\<close>

record BitmapFileHeader =
  bfType :: u16
  bfSize :: u32
  bfReserved1 :: u16
  bfReserved2 :: u16
  bfOffBits :: u32

text \<open>The \<^verbatim>\<open>std::int32_t\<close> fields are kept as 32-bit words and read with \<open>sint\<close>.\<close>

record BitmapInfoHeader =
  biSize :: u32
  biWidth :: u32
  biHeight :: u32
  biPlanes :: u16
  biBitCount :: u16
  biCompression :: u32
  biSizeImage :: u32
  biXPelsPerMeter :: u32
  biYPelsPerMeter :: u32
  biClrUsed :: u32
  biClrImportant :: u32

definition decode_file_header :: "byte list \<Rightarrow> BitmapFileHeader" where
  "decode_file_header bs =
     \<lparr>bfType = le16 bs, bfSize = le32 (drop 2 bs), bfReserved1 = le16 (drop 6 bs),
      bfReserved2 = le16 (drop 8 bs), bfOffBits = le32 (drop 10 bs)\<rparr>"

definition decode_info_header :: "byte list \<Rightarrow> BitmapInfoHeader" where
  "decode_info_header bs =
     \<lparr>biSize = le32 bs, biWidth = le32 (drop 4 bs), biHeight = le32 (drop 8 bs),
      biPlanes = le16 (drop 12 bs), biBitCount = le16 (drop 14 bs),
      biCompression = le32 (drop 16 bs), biSizeImage = le32 (drop 20 bs),
      biXPelsPerMeter = le32 (drop 24 bs), biYPelsPerMeter = le32 (drop 28 bs),
      biClrUsed = le32 (drop 32 bs), biClrImportant = le32 (drop 36 bs)\<rparr>"

definition encode_info_header :: "BitmapInfoHeader \<Rightarrow> byte list" where
  "encode_info_header h =
     bytes32 (biSize h) @ bytes32 (biWidth h) @ bytes32 (biHeight h)
     @ bytes16 (biPlanes h) @ bytes16 (biBitCount h)
     @ bytes32 (biCompression h) @ bytes32 (biSizeImage h)
     @ bytes32 (biXPelsPerMeter h) @ bytes32 (biYPelsPerMeter h)
     @ bytes32 (biClrUsed h) @ bytes32 (biClrImportant h)"

text \<open>The data members of \<^verbatim>\<open>class bitmap\<close>, and a default-constructed object.\<close>

record bitmap =
  width :: int
  height :: int
  bitDepth :: int
  pixels :: "byte list"

definition default_bitmap :: bitmap where
  "default_bitmap = \<lparr>bitmap.width = 0, height = 0, bitDepth = 0, pixels = []\<rparr>"

subsection \<open>The input stream of the bitmap loader\<close>

text \<open>
  \<^verbatim>\<open>loadFromImage\<close> never arms the stream's exceptions and never tests its state, so a
  failing read goes unnoticed by the program. The stream is its contents, the read position
  and the fail bit. A \<^verbatim>\<open>read\<close> of \<open>n\<close> bytes into a buffer does nothing on a failed stream;
  otherwise it stores the bytes that are there, and sets the fail bit when they are fewer
  than \<open>n\<close>. \<^verbatim>\<open>seekg\<close> does nothing on a failed stream; a file stream can be positioned
  past its end.
\<close>

record ifstream =
  contents :: "byte list"
  pos :: nat
  failed :: bool

definition istream_read :: "nat \<Rightarrow> byte list \<Rightarrow> ifstream \<Rightarrow> byte list \<times> ifstream" where
  "istream_read n buf fl =
     (if failed fl then (buf, fl)
      else
        let avail = take n (drop (pos fl) (contents fl))
        in if length avail = n then (avail @ drop n buf, fl\<lparr>pos := pos fl + n\<rparr>)
           else (avail @ drop (length avail) buf,
                 fl\<lparr>pos := pos fl + length avail, failed := True\<rparr>))"

definition istream_seekg :: "nat \<Rightarrow> ifstream \<Rightarrow> ifstream" where
  "istream_seekg off fl = (if failed fl then fl else fl\<lparr>pos := off\<rparr>)"

subsection \<open>Loading a BMP\<close>

text \<open>
  The row loop of \<^verbatim>\<open>loadFromImage\<close>: \<^verbatim>\<open>for (int y = 0; y < height; ++y)\<close>. Each round reads
  \<open>paddedRowSize\<close> bytes into \<open>row\<close> and copies the first \<open>rawRowSize\<close> bytes of \<open>row\<close> to
  \<^verbatim>\<open>&pixels[destY * rawRowSize]\<close> (\<open>hgt\<close> and \<open>pxs\<close> stand for the members \<^verbatim>\<open>height\<close>
  and \<^verbatim>\<open>pixels\<close>). A copy that leaves either vector is undefined behaviour
  and ends the model with \<open>OutOfBounds\<close>. \<^verbatim>\<open>++y\<close> cannot overflow, since \<open>y < height\<close>.
\<close>

function load_rows ::
  "int \<Rightarrow> int \<Rightarrow> bool \<Rightarrow> nat \<Rightarrow> nat \<Rightarrow> ifstream \<Rightarrow> byte list \<Rightarrow> byte list \<Rightarrow> error + byte list" where
  "load_rows y hgt topDown paddedRowSize rawRowSize fl row pxs =
     (if y < hgt then
        (case istream_read paddedRowSize row fl of
           (row', fl') \<Rightarrow>
             let destY = (if topDown then y else int32 (int32 (hgt - 1) - y));
                 dest = (size_t destY * rawRowSize) mod 2 ^ 64
             in if rawRowSize \<le> length row' \<and> dest + rawRowSize \<le> length pxs
                then load_rows (y + 1) hgt topDown paddedRowSize rawRowSize fl' row'
                       (take dest pxs @ take rawRowSize row' @ drop (dest + rawRowSize) pxs)
                else Inl OutOfBounds)
      else Inr pxs)"
  by pat_completeness auto
termination
  by (relation "measure (\<lambda>(y, hgt, topDown, paddedRowSize, rawRowSize, fl, row, pxs).
        nat (hgt - y))") auto

text \<open>
  \<^verbatim>\<open>bitmap::loadFromImage\<close>, on the object \<open>this\<close> and the contents of the file at \<open>path\<close>
  (\<open>None\<close> when it cannot be opened). The result is \<^verbatim>\<open>true\<close> and the object as it is left.
\<close>

definition loadFromImage :: "bitmap \<Rightarrow> byte list option \<Rightarrow> error + (bool \<times> bitmap)" where
  "loadFromImage this path =
     (case path of
        None \<Rightarrow> Inl SourceUnavailable
      | Some bytes \<Rightarrow>
          (case istream_read 14 (replicate 14 0) \<lparr>contents = bytes, pos = 0, failed = False\<rparr> of
             (fh, fl1) \<Rightarrow>
          (case istream_read 40 (replicate 40 0) fl1 of
             (ih, fl2) \<Rightarrow>
               let file_header = decode_file_header fh;
                   info_header = decode_info_header ih
               in if bfType file_header \<noteq> 0x4D42 then Inl NotABitmap
                  else if biCompression info_header \<noteq> 0 then Inl UnsupportedCompression
                  else
                    let width = sint (biWidth info_header);
                        height = sint (biHeight info_header);
                        bitDepth = uint (biBitCount info_header);
                        topDown = (sint (biHeight info_header) < 0);
                        bytesPerPixel = size_t (bitDepth sdiv 8);
                        paddedRowSize =
                          size_t (int32 (int32 (int32 (int32 (bitDepth * width) + 31) sdiv 32) * 4));
                        rawRowSize = (size_t width * bytesPerPixel) mod 2 ^ 64;
                        n = (size_t (int32 (width * height)) * bytesPerPixel) mod 2 ^ 64
                    in if vector_max_size < n then Inl LengthError
                       else
                         let pixels = resize n (pixels this);
                             fl3 = istream_seekg (unat (bfOffBits file_header)) fl2
                         in if vector_max_size < paddedRowSize then Inl LengthError
                            else
                              (case load_rows 0 height topDown paddedRowSize rawRowSize fl3
                                      (replicate paddedRowSize 0) pixels of
                                 Inl e \<Rightarrow> Inl e
                               | Inr pixels' \<Rightarrow>
                                   Inr (True, \<lparr>bitmap.width = width, height = height,
                                               bitDepth = bitDepth, pixels = pixels'\<rparr>)))))"

subsection \<open>Writing an ICO\<close>

text \<open>\<^verbatim>\<open>pixels[i]\<close> with an \<^verbatim>\<open>int\<close> index: outside the vector the access is undefined.\<close>

definition pixel_at :: "byte list \<Rightarrow> int \<Rightarrow> byte option" where
  "pixel_at v i = (if 0 \<le> i \<and> nat i < length v then Some (v ! nat i) else None)"

text \<open>The inner loop \<^verbatim>\<open>for (int x = 0; x < width; ++x)\<close> of \<^verbatim>\<open>saveToIco\<close>, appending to the file.\<close>

function put_row :: "bitmap \<Rightarrow> int \<Rightarrow> int \<Rightarrow> byte list \<Rightarrow> error + byte list" where
  "put_row this y x out =
     (if x < bitmap.width this then
        let i = int32 (int32 (int32 (y * bitmap.width this) + x) * 3)
        in (case (pixel_at (pixels this) (int32 (i + 0)),
                  pixel_at (pixels this) (int32 (i + 1)),
                  pixel_at (pixels this) (int32 (i + 2))) of
              (Some b, Some g, Some r) \<Rightarrow> put_row this y (x + 1) (out @ [b, g, r, 255])
            | _ \<Rightarrow> Inl OutOfBounds)
      else Inr out)"
  by pat_completeness auto
termination
  by (relation "measure (\<lambda>(this, y, x, out). nat (bitmap.width this - x))") auto

text \<open>The outer loop \<^verbatim>\<open>for (int y = height - 1; y >= 0; --y)\<close>.\<close>

function put_rows :: "bitmap \<Rightarrow> int \<Rightarrow> byte list \<Rightarrow> error + byte list" where
  "put_rows this y out =
     (if y \<ge> 0 then
        (case put_row this y 0 out of
           Inl e \<Rightarrow> Inl e
         | Inr out' \<Rightarrow> put_rows this (y - 1) out')
      else Inr out)"
  by pat_completeness auto
termination
  by (relation "measure (\<lambda>(this, y, out). nat (y + 1))") auto

text \<open>
  \<^verbatim>\<open>bitmap::saveToIco\<close>. \<open>out_is_open\<close> says whether the destination could be opened; the
  result is \<^verbatim>\<open>true\<close> and the bytes written. The local structs \<^verbatim>\<open>ICONDIR\<close> (three 16-bit
  fields) and \<^verbatim>\<open>ICONDIRENTRY\<close> (four bytes, two 16-bit and two 32-bit fields) have no padding
  under natural alignment: 6 and 16 bytes. \<^verbatim>\<open>BitmapInfoHeader\<close> is packed: 40 bytes.
\<close>

definition saveToIco :: "bitmap \<Rightarrow> bool \<Rightarrow> error + (bool \<times> byte list)" where
  "saveToIco this out_is_open =
     (if bitmap.width this \<le> 0 \<or> bitmap.height this \<le> 0 \<or> bitDepth this \<noteq> 24
        then Inl UnsupportedBitmapFormat
      else if \<not> out_is_open then Inl DestinationUnavailable
      else
        let imageSize = size_t (int32 (int32 (bitmap.width this * bitmap.height this) * 4));
            maskSize =
              size_t (int32 (int32 (int32 (int32 (bitmap.width this + 31) sdiv 32) * 4)
                              * bitmap.height this));
            dataSize = (imageSize + maskSize) mod 2 ^ 64;
            iconDir = bytes16 0 @ bytes16 1 @ bytes16 1;
            entry =
              [word_of_int (bitmap.width this), word_of_int (bitmap.height this), 0, 0]
              @ bytes16 1 @ bytes16 32
              @ bytes32 (word_of_nat ((40 + dataSize) mod 2 ^ 64))
              @ bytes32 (word_of_nat (6 + 16));
            bih = \<lparr>biSize = 40,
                   biWidth = word_of_int (bitmap.width this),
                   biHeight = word_of_int (int32 (bitmap.height this * 2)),
                   biPlanes = 1, biBitCount = 32, biCompression = 0,
                   biSizeImage = word_of_nat imageSize,
                   biXPelsPerMeter = 0, biYPelsPerMeter = 0, biClrUsed = 0, biClrImportant = 0\<rparr>
        in (case put_rows this (int32 (bitmap.height this - 1))
                   (iconDir @ entry @ encode_info_header bih) of
              Inl e \<Rightarrow> Inl e
            | Inr out \<Rightarrow>
                if vector_max_size < maskSize then Inl LengthError
                else Inr (True, out @ replicate maskSize 0)))"

subsection \<open>From a BMP to an icon\<close>

text \<open>
  \<^verbatim>\<open>icon::from_bmp\<close>: load the bitmap into a fresh object, write it as a temporary ICO file,
  construct the icon from that file. \<open>bmp_path\<close> is the contents of the BMP file (\<open>None\<close> when
  it cannot be opened), \<open>temp_is_open\<close> says whether the temporary file could be created. The
  constructor reads back what \<^verbatim>\<open>saveToIco\<close> wrote; removing the temporary file afterwards
  has no effect on the result and is not part of the model.
\<close>

definition from_bmp :: "byte list option \<Rightarrow> bool \<Rightarrow> error + icon" where
  "from_bmp bmp_path temp_is_open =
     (case loadFromImage default_bitmap bmp_path of
        Inl e \<Rightarrow> Inl e
      | Inr (loaded, bmp) \<Rightarrow>
          if \<not> loaded then Inl FailedToLoad
          else
            (case saveToIco bmp temp_is_open of
               Inl e \<Rightarrow> Inl e
             | Inr (saved, temp_ico) \<Rightarrow>
                 if \<not> saved then Inl FailedToSave
                 else icon_ctor (Some temp_ico)))"

subsection \<open>Test data\<close>

text \<open>
  \<^verbatim>\<open>expected_header\<close> of the unit test \<^verbatim>\<open>icon.get_success\<close>: the 22 bytes the test
  compares \<^verbatim>\<open>get_header()\<close> of \<^verbatim>\<open>image1.ico\<close> with.
\<close>

definition expected_header :: "byte list" where
  "expected_header =
     [0x00, 0x00, 0x01, 0x00, 0x01, 0x00, 0x20, 0x20, 0x00, 0x00, 0x01, 0x00,
      0x20, 0x00, 0xA8, 0x10, 0x00, 0x00, 0x01, 0x00, 0x00, 0x00]"

section \<open>Properties of the icon reader\<close>

subsection \<open>Auxiliary facts\<close>

lemma length_le_bytes [simp]: "length (le_bytes n v) = n"
  by (induction n arbitrary: v) auto

lemma le16_drop_take: "k + 2 \<le> n \<Longrightarrow> le16 (drop k (take n bs)) = le16 (drop k bs)"
  by (simp add: le16_def drop_take min_def)

lemma file_read_Some: "n \<le> length fl \<Longrightarrow> file_read n fl = Some (take n fl, drop n fl)"
  by (simp add: file_read_def)

lemma file_read_None: "length fl < n \<Longrightarrow> file_read n fl = None"
  by (simp add: file_read_def)

lemma read_header_chain:
  "read_header fl ic =
     (if length fl < 6 then Inl TruncatedHeader
      else if le16 fl \<noteq> 0 then Inl (InvalidHeaderReserved (le16 fl))
      else if le16 (drop 2 fl) = 2 then Inl WrongContainerType
      else if le16 (drop 2 fl) \<noteq> 1 then Inl (InvalidContainerType (le16 (drop 2 fl)))
      else if le16 (drop 4 fl) = 0 then Inl NoImageEntries
      else Inr (drop 6 fl,
                ic\<lparr>resource_header :=
                     \<lparr>header.reserved = 0, type = 1, entries_count = le16 (drop 4 fl)\<rparr>\<rparr>))"
proof (cases "length fl < 6")
  case True
  then show ?thesis by (simp add: read_header_def file_read_None)
next
  case False
  then have len: "6 \<le> length fl" by simp
  have a: "le16 (take 6 fl) = le16 fl"
    using le16_drop_take [of 0 6 fl] by simp
  have b: "le16 (drop 2 (take 6 fl)) = le16 (drop 2 fl)"
    by (rule le16_drop_take) simp
  have c: "le16 (drop 4 (take 6 fl)) = le16 (drop 4 fl)"
    by (rule le16_drop_take) simp
  show ?thesis
    using False by (auto simp add: read_header_def file_read_Some [OF len] decode_header_def a b c Let_def)
qed

lemma read_header_propagates:
  "read_header fl empty_icon = Inl e \<Longrightarrow> icon_ctor (Some fl) = Inl e"
  by (simp add: icon_ctor_def open_file_def read_icon_entries_def)

lemma read_images_append:
  "read_images fl (pre @ rest) ic =
     (case read_images fl pre ic of Inl e \<Rightarrow> Inl e | Inr (fl', ic') \<Rightarrow> read_images fl' rest ic')"
  by (induction pre arbitrary: fl ic) (auto split: option.splits)

lemma read_images_ok:
  assumes "\<forall>e \<in> set es. icon_entry.reserved e = 0 \<and> (icon_entry.planes e = 0 \<or> icon_entry.planes e = 1)"
      and "sum_list (map (\<lambda>e. unat (image_size e)) es) \<le> length fl"
  shows "read_images fl es ic =
           Inr (drop (sum_list (map (\<lambda>e. unat (image_size e)) es)) fl,
                ic\<lparr>images := images ic @
                   map (\<lambda>i. take (unat (image_size (es ! i)))
                              (drop (sum_list (map (\<lambda>e. unat (image_size e)) (take i es))) fl))
                       [0..<length es]\<rparr>)"
  using assms
proof (induction es arbitrary: fl ic)
  case Nil
  then show ?case by simp
next
  case (Cons a es)
  let ?n = "unat (image_size a)"
  from Cons.prems have fit: "?n \<le> length fl" by simp
  from Cons.prems have rest: "sum_list (map (\<lambda>e. unat (image_size e)) es) \<le> length (drop ?n fl)"
    by simp
  from Cons.prems have va: "icon_entry.reserved a = 0" "icon_entry.planes a = 0 \<or> icon_entry.planes a = 1"
    and ves: "\<forall>e \<in> set es. icon_entry.reserved e = 0 \<and> (icon_entry.planes e = 0 \<or> icon_entry.planes e = 1)"
    by simp_all
  have step: "read_images fl (a # es) ic =
      read_images (drop ?n fl) es (ic\<lparr>images := images ic @ [take ?n fl]\<rparr>)"
    using va by (auto simp add: file_read_Some [OF fit])
  have idx: "[0..<length (a # es)] = 0 # map Suc [0..<length es]"
    by (simp add: upt_conv_Cons map_Suc_upt del: upt_Suc)
  show ?case
    unfolding step Cons.IH [OF ves rest] idx
    by (simp add: o_def add.commute)
qed


lemma read_images_Inr_valid:
  "read_images fl es ic = Inr r \<Longrightarrow>
     (\<forall>e \<in> set es. icon_entry.reserved e = 0 \<and> (icon_entry.planes e = 0 \<or> icon_entry.planes e = 1))
     \<and> sum_list (map (\<lambda>e. unat (image_size e)) es) \<le> length fl"
proof (induction es arbitrary: fl ic)
  case Nil
  then show ?case by simp
next
  case (Cons a es)
  let ?n = "unat (image_size a)"
  from Cons.prems have va: "icon_entry.reserved a = 0" "icon_entry.planes a = 0 \<or> icon_entry.planes a = 1"
    by (auto split: if_splits)
  from Cons.prems va have fit: "?n \<le> length fl"
    by (auto simp add: file_read_def split: if_splits)
  from Cons.prems va fit
  have "read_images (drop ?n fl) es (ic\<lparr>images := images ic @ [take ?n fl]\<rparr>) = Inr r"
    by (auto simp add: file_read_def split: if_splits)
  from Cons.IH [OF this] va fit show ?case by auto
qed

lemma convert_loop_ok:
  assumes "\<forall>e \<in> set es. icon_entry.reserved e = 0 \<and> (icon_entry.planes e = 0 \<or> icon_entry.planes e = 1)"
  shows "convert_loop es c ic =
     Inr (ic\<lparr>resource_entries := resource_entries ic @
          map (\<lambda>i. \<lparr>entry.width = icon_entry.width (es ! i),
                     entry.height = icon_entry.height (es ! i),
                     entry.color_count = icon_entry.color_count (es ! i),
                     entry.reserved = icon_entry.reserved (es ! i),
                     entry.planes = icon_entry.planes (es ! i),
                     entry.bit_count = icon_entry.bit_count (es ! i),
                     resource_size = image_size (es ! i),
                     icon_id = c + word_of_nat (Suc i)\<rparr>) [0..<length es]\<rparr>)"
  using assms
proof (induction es arbitrary: c ic)
  case Nil
  then show ?case by simp
next
  case (Cons a es)
  have idx: "[0..<length (a # es)] = 0 # map Suc [0..<length es]"
    by (simp add: upt_conv_Cons map_Suc_upt del: upt_Suc)
  from Cons.prems have ves:
    "\<forall>e \<in> set es. icon_entry.reserved e = 0 \<and> (icon_entry.planes e = 0 \<or> icon_entry.planes e = 1)"
    by simp
  from Cons.prems show ?case
    unfolding idx by (auto simp add: Cons.IH [OF ves] Let_def o_def add.assoc)
qed

lemma decode_entries_length [simp]: "length (decode_entries n bs) = n"
  by (induction n arbitrary: bs) auto

lemma decode_entries_nth:
  "i < n \<Longrightarrow> decode_entries n bs ! i = decode_icon_entry (take 16 (drop (16 * i) bs))"
proof (induction n arbitrary: i bs)
  case 0
  then show ?case by simp
next
  case (Suc n)
  then show ?case by (cases i) (auto simp add: add.commute)
qed


lemma read_icon_entries_Inr:
  assumes "read_icon_entries bs ic0 = Inr (es, fl1, ic1)"
  shows "length es = unat (le16 (drop 4 bs))"
    and "0 < length es"
    and "6 + 16 * length es \<le> length bs"
    and "fl1 = drop (6 + 16 * length es) bs"
    and "ic1 = ic0\<lparr>resource_header :=
                 \<lparr>header.reserved = 0, type = 1, entries_count = le16 (drop 4 bs)\<rparr>\<rparr>"
    and "\<forall>i < length es. es ! i = decode_icon_entry (take 16 (drop (6 + 16 * i) bs))"
proof -
  let ?n = "unat (le16 (drop 4 bs))"
  let ?ic = "ic0\<lparr>resource_header :=
                 \<lparr>header.reserved = 0, type = 1, entries_count = le16 (drop 4 bs)\<rparr>\<rparr>"
  from assms have hd: "read_header bs ic0 = Inr (drop 6 bs, ?ic)" and nz: "le16 (drop 4 bs) \<noteq> 0"
    and len6: "6 \<le> length bs"
    by (auto simp add: read_icon_entries_def read_header_chain split: if_splits sum.splits)
  from assms hd have fit: "?n * 16 \<le> length (drop 6 bs)"
    by (auto simp add: read_icon_entries_def file_read_def Let_def split: if_splits)
  from assms hd fit have es: "es = decode_entries ?n (take (?n * 16) (drop 6 bs))"
    and fl1: "fl1 = drop (?n * 16) (drop 6 bs)" and ic1: "ic1 = ?ic"
    by (auto simp add: read_icon_entries_def file_read_def Let_def split: if_splits)
  show n: "length es = ?n" by (simp add: es)
  from nz show "0 < length es" by (simp add: n unat_gt_0)
  from fit len6 show "6 + 16 * length es \<le> length bs" by (simp add: n)
  from fl1 show "fl1 = drop (6 + 16 * length es) bs" by (simp add: n mult.commute add.commute)
  from ic1 show "ic1 = ?ic" .
  show "\<forall>i < length es. es ! i = decode_icon_entry (take 16 (drop (6 + 16 * i) bs))"
  proof (intro allI impI)
    fix i assume "i < length es"
    then have i: "i < ?n" by (simp add: n)
    then have m: "min 16 (?n * 16 - 16 * i) = 16" by simp
    from i show "es ! i = decode_icon_entry (take 16 (drop (6 + 16 * i) bs))"
      by (simp add: es decode_entries_nth drop_take m add.commute)
  qed
qed

lemma icon_ctor_Inr:
  assumes "icon_ctor (Some bs) = Inr ic"
  obtains es fl1 ic1 fl2 ic2 where
    "read_icon_entries bs empty_icon = Inr (es, fl1, ic1)"
    "read_images fl1 es ic1 = Inr (fl2, ic2)"
    "convert_entries es ic2 = Inr ic"
  using assms
  by (auto simp add: icon_ctor_def open_file_def split: sum.splits)

lemma concat_slice:
  assumes "\<forall>x \<in> set xs. length (f x) = k" and "i < length xs"
  shows "take k (drop (k * i) (concat (map f xs))) = f (xs ! i)"
  using assms
proof (induction xs arbitrary: i)
  case Nil
  then show ?case by simp
next
  case (Cons a xs)
  show ?case
  proof (cases i)
    case 0
    with Cons.prems show ?thesis by simp
  next
    case (Suc j)
    with Cons.prems have "take k (drop (k * j) (concat (map f xs))) = f (xs ! j)"
      by (intro Cons.IH) auto
    with Cons.prems Suc show ?thesis by simp
  qed
qed

lemma get_header_loop_concat:
  "get_header_loop es acc = acc @ concat (map serialize_entry es)"
  by (induction es arbitrary: acc) auto

lemma length_serialize_header [simp]: "length (serialize_header h) = 6"
  by (simp add: serialize_header_def bytes16_def)

lemma length_serialize_entry [simp]: "length (serialize_entry e) = 14"
  by (simp add: serialize_entry_def bytes16_def bytes32_def)

lemma le_nat_le_bytes: "le_nat (le_bytes n v) = v mod 256 ^ n"
proof (induction n arbitrary: v)
  case 0 then show ?case by simp
next
  case (Suc n)
  have "unat (word_of_nat (v mod 256) :: byte) = v mod 256"
    by (simp add: unat_of_nat)
  then show ?case using Suc by (simp add: mod_mult2_eq)
qed

lemma le16_bytes16 [simp]: "le16 (bytes16 w @ rest) = w"
proof -
  have "unat w < 2 ^ LENGTH(16)" by (rule unsigned_less)
  then have "unat w < 65536" by simp
  then show ?thesis by (simp add: le16_def bytes16_def le_nat_le_bytes)
qed

lemma le32_bytes32 [simp]: "le32 (bytes32 w @ rest) = w"
proof -
  have "unat w < 2 ^ LENGTH(32)" by (rule unsigned_less)
  then have "unat w < 4294967296" by simp
  then show ?thesis by (simp add: le32_def bytes32_def le_nat_le_bytes)
qed

lemma get_header_eq:
  "get_header ic = serialize_header (resource_header ic) @ concat (map serialize_entry (resource_entries ic))"
  by (simp add: get_header_def get_header_loop_concat)

lemma length_concat_serialize: "length (concat (map serialize_entry es)) = 14 * length es"
  by (induction es) auto

lemma serialize_entry_fields:
  "serialize_entry e ! 0 = entry.width e"
  "serialize_entry e ! 1 = entry.height e"
  "serialize_entry e ! 2 = entry.color_count e"
  "serialize_entry e ! 3 = entry.reserved e"
  "le16 (drop 4 (serialize_entry e)) = entry.planes e"
  "le16 (drop 6 (serialize_entry e)) = entry.bit_count e"
  "le32 (drop 8 (serialize_entry e)) = resource_size e"
  "le16 (drop 12 (serialize_entry e)) = icon_id e"
proof -
  have l2: "\<And>w. length (bytes16 w) = 2" by (simp add: bytes16_def)
  have l4: "\<And>w. length (bytes32 w) = 4" by (simp add: bytes32_def)
  show "serialize_entry e ! 0 = entry.width e" "serialize_entry e ! 1 = entry.height e"
    "serialize_entry e ! 2 = entry.color_count e" "serialize_entry e ! 3 = entry.reserved e"
    by (simp_all add: serialize_entry_def)
  show "le16 (drop 4 (serialize_entry e)) = entry.planes e"
    by (simp add: serialize_entry_def)
  show "le16 (drop 6 (serialize_entry e)) = entry.bit_count e"
    by (simp add: serialize_entry_def l2)
  show "le32 (drop 8 (serialize_entry e)) = resource_size e"
    by (simp add: serialize_entry_def l2)
  have "le16 (drop 12 (serialize_entry e)) = le16 (bytes16 (icon_id e) @ [])"
    by (simp add: serialize_entry_def l2 l4)
  then show "le16 (drop 12 (serialize_entry e)) = icon_id e"
    by (simp only: le16_bytes16)
qed

subsection \<open>Header validation\<close>

text \<open>
  Claim C6. On any byte stream, \<^verbatim>\<open>read_header\<close> fails with \<open>TruncatedHeader\<close> when fewer
  than 6 bytes are available; otherwise it checks the decoded fields in one fixed order and
  stops at the first failure: a nonzero \<open>reserved\<close> (bytes 0-1) gives
  \<open>InvalidHeaderReserved\<close> with the actual value, else \<open>type = 2\<close> (bytes 2-3) gives
  \<open>WrongContainerType\<close>, else \<open>type \<noteq> 1\<close> gives \<open>InvalidContainerType\<close> with the actual
  value, else \<open>entries_count = 0\<close> (bytes 4-5) gives \<open>NoImageEntries\<close>; otherwise the header
  is accepted. Every such failure is the failure of the whole constructor.
\<close>

theorem read_header_validation_order:
  "read_header fl ic =
     (if length fl < 6 then Inl TruncatedHeader
      else if le16 fl \<noteq> 0 then Inl (InvalidHeaderReserved (le16 fl))
      else if le16 (drop 2 fl) = 2 then Inl WrongContainerType
      else if le16 (drop 2 fl) \<noteq> 1 then Inl (InvalidContainerType (le16 (drop 2 fl)))
      else if le16 (drop 4 fl) = 0 then Inl NoImageEntries
      else Inr (drop 6 fl,
                ic\<lparr>resource_header :=
                     \<lparr>header.reserved = 0, type = 1, entries_count = le16 (drop 4 fl)\<rparr>\<rparr>))
   \<and> (\<forall>e. read_header fl empty_icon = Inl e \<longrightarrow> icon_ctor (Some fl) = Inl e)"
  using read_header_chain [of fl ic] read_header_propagates [of fl] by blast

theorem read_header_validation_order_witness:
  "read_header [0, 0, 2, 0, 1, 0] empty_icon = Inl WrongContainerType
   \<and> icon_ctor (Some [0, 0, 2, 0, 1, 0]) = Inl WrongContainerType
   \<and> read_header [1, 0, 2, 0, 0, 0] empty_icon = Inl (InvalidHeaderReserved 1)
   \<and> read_header [0, 0, 3, 0, 0, 0] empty_icon = Inl (InvalidContainerType 3)
   \<and> read_header [0, 0, 1, 0, 0, 0] empty_icon = Inl NoImageEntries
   \<and> read_header [0, 0, 1, 0, 0] empty_icon = Inl TruncatedHeader"
proof -
  have a: "read_header [0, 0, 2, 0, 1, 0] empty_icon = Inl WrongContainerType"
    using read_header_validation_order [of "[0, 0, 2, 0, 1, 0]" empty_icon]
    by (simp add: le16_def)
  with read_header_validation_order [of "[0, 0, 2, 0, 1, 0]" empty_icon]
  have b: "icon_ctor (Some [0, 0, 2, 0, 1, 0]) = Inl WrongContainerType"
    by blast
  have c: "read_header [1, 0, 2, 0, 0, 0] empty_icon = Inl (InvalidHeaderReserved 1)"
    using read_header_validation_order [of "[1, 0, 2, 0, 0, 0]" empty_icon]
    by (simp add: le16_def)
  have d: "read_header [0, 0, 3, 0, 0, 0] empty_icon = Inl (InvalidContainerType 3)"
    using read_header_validation_order [of "[0, 0, 3, 0, 0, 0]" empty_icon]
    by (simp add: le16_def)
  have e: "read_header [0, 0, 1, 0, 0, 0] empty_icon = Inl NoImageEntries"
    using read_header_validation_order [of "[0, 0, 1, 0, 0, 0]" empty_icon]
    by (simp add: le16_def)
  have f: "read_header [0, 0, 1, 0, 0] empty_icon = Inl TruncatedHeader"
    using read_header_validation_order [of "[0, 0, 1, 0, 0]" empty_icon]
    by simp
  from a b c d e f show ?thesis by blast
qed

subsection \<open>Image payloads are read in file order\<close>

text \<open>
  Claim C1. The loop of \<^verbatim>\<open>read_images\<close> works through the directory entries in file order.
  When the entries \<open>pre\<close> before an entry \<open>e\<close> have passed (reserved byte zero, planes 0
  or 1, payloads available), the outcome at \<open>e\<close> is decided in this order: a nonzero
  reserved byte fails with \<open>InvalidEntryReserved\<close> and the byte; otherwise planes other than 0
  and 1 fail with \<open>InvalidEntryPlanes\<close> and the value; otherwise fewer than \<open>image_size e\<close>
  bytes left in the stream fail with \<open>TruncatedImageData\<close>; otherwise the next
  \<open>image_size e\<close> bytes at the current stream position become the blob of \<open>e\<close> and the loop
  goes on with the entries after it. For an accepted file, blob \<open>i\<close> is therefore the run of
  \<open>image_size\<close> bytes that starts right after the 6-byte header, the entry table and the
  blobs before it. The \<open>image_offset\<close> field has no influence on the result.
\<close>

theorem read_images_file_order:
  "((\<forall>x \<in> set pre. icon_entry.reserved x = 0 \<and> (icon_entry.planes x = 0 \<or> icon_entry.planes x = 1))
      \<and> sum_list (map (\<lambda>x. unat (image_size x)) pre) \<le> length fl
    \<longrightarrow> read_images fl (pre @ e # post) ic =
      (if icon_entry.reserved e \<noteq> 0 then Inl (InvalidEntryReserved (icon_entry.reserved e))
       else if icon_entry.planes e \<noteq> 0 \<and> icon_entry.planes e \<noteq> 1
         then Inl (InvalidEntryPlanes (icon_entry.planes e))
       else if length fl < sum_list (map (\<lambda>x. unat (image_size x)) pre) + unat (image_size e)
         then Inl TruncatedImageData
       else read_images
              (drop (sum_list (map (\<lambda>x. unat (image_size x)) pre) + unat (image_size e)) fl) post
              (ic\<lparr>images := images ic
                   @ map (\<lambda>i. take (unat (image_size (pre ! i)))
                                (drop (sum_list (map (\<lambda>x. unat (image_size x)) (take i pre))) fl))
                         [0..<length pre]
                   @ [take (unat (image_size e))
                        (drop (sum_list (map (\<lambda>x. unat (image_size x)) pre)) fl)]\<rparr>)))
   \<and> (read_icon_entries bs empty_icon = Inr (es, fl1, ic1) \<and> icon_ctor (Some bs) = Inr ic'
    \<longrightarrow> images ic' =
          map (\<lambda>i. take (unat (image_size (es ! i)))
                     (drop (6 + 16 * length es
                              + sum_list (map (\<lambda>x. unat (image_size x)) (take i es))) bs))
              [0..<length es])
   \<and> read_images fl (map (\<lambda>x. x\<lparr>image_offset := g x\<rparr>) es') ic = read_images fl es' ic"
proof (intro conjI impI)
  assume pre: "(\<forall>x \<in> set pre. icon_entry.reserved x = 0 \<and> (icon_entry.planes x = 0 \<or> icon_entry.planes x = 1))
      \<and> sum_list (map (\<lambda>x. unat (image_size x)) pre) \<le> length fl"
  let ?s = "sum_list (map (\<lambda>x. unat (image_size x)) pre)"
  have "read_images fl (pre @ e # post) ic =
     read_images (drop ?s fl) (e # post)
       (ic\<lparr>images := images ic
            @ map (\<lambda>i. take (unat (image_size (pre ! i)))
                         (drop (sum_list (map (\<lambda>x. unat (image_size x)) (take i pre))) fl))
                  [0..<length pre]\<rparr>)"
    using pre by (simp add: read_images_append read_images_ok)
  moreover have "length fl < ?s + unat (image_size e) \<longleftrightarrow> length (drop ?s fl) < unat (image_size e)"
    using pre by auto
  ultimately show "read_images fl (pre @ e # post) ic =
      (if icon_entry.reserved e \<noteq> 0 then Inl (InvalidEntryReserved (icon_entry.reserved e))
       else if icon_entry.planes e \<noteq> 0 \<and> icon_entry.planes e \<noteq> 1
         then Inl (InvalidEntryPlanes (icon_entry.planes e))
       else if length fl < ?s + unat (image_size e)
         then Inl TruncatedImageData
       else read_images (drop (?s + unat (image_size e)) fl) post
              (ic\<lparr>images := images ic
                   @ map (\<lambda>i. take (unat (image_size (pre ! i)))
                                (drop (sum_list (map (\<lambda>x. unat (image_size x)) (take i pre))) fl))
                         [0..<length pre]
                   @ [take (unat (image_size e)) (drop ?s fl)]\<rparr>))"
    by (auto simp add: file_read_def add.commute)
next
  assume a: "read_icon_entries bs empty_icon = Inr (es, fl1, ic1) \<and> icon_ctor (Some bs) = Inr ic'"
  from a obtain fl2 ic2 where ri: "read_images fl1 es ic1 = Inr (fl2, ic2)"
    and ce: "convert_entries es ic2 = Inr ic'"
    by (auto elim!: icon_ctor_Inr)
  from a have fl1: "fl1 = drop (6 + 16 * length es) bs"
    and ic1: "images ic1 = []"
    using read_icon_entries_Inr(4,5) [of bs empty_icon es fl1 ic1] by (simp_all add: empty_icon_def)
  from read_images_Inr_valid [OF ri]
  have v: "\<forall>e \<in> set es. icon_entry.reserved e = 0 \<and> (icon_entry.planes e = 0 \<or> icon_entry.planes e = 1)"
    and fit: "sum_list (map (\<lambda>e. unat (image_size e)) es) \<le> length fl1"
    by simp_all
  from ri read_images_ok [OF v fit, of ic1]
  have "images ic2 = map (\<lambda>i. take (unat (image_size (es ! i)))
        (drop (sum_list (map (\<lambda>e. unat (image_size e)) (take i es))) fl1)) [0..<length es]"
    by (auto simp add: ic1)
  moreover from ce convert_loop_ok [OF v, of 0 ic2] have "images ic' = images ic2"
    by (auto simp add: convert_entries_def)
  ultimately show "images ic' =
          map (\<lambda>i. take (unat (image_size (es ! i)))
                     (drop (6 + 16 * length es
                              + sum_list (map (\<lambda>x. unat (image_size x)) (take i es))) bs))
              [0..<length es]"
    by (simp add: fl1 add.commute)
next
  show "read_images fl (map (\<lambda>x. x\<lparr>image_offset := g x\<rparr>) es') ic = read_images fl es' ic"
    by (induction es' arbitrary: fl ic) (auto split: option.splits)
qed


theorem read_images_file_order_witness:
  "read_images [0xAA, 0xBB, 1, 2, 3]
     ([\<lparr>icon_entry.width = 1, height = 1, color_count = 0, reserved = 0, planes = 1,
        bit_count = 32, image_size = 2, image_offset = 99\<rparr>]
      @ \<lparr>icon_entry.width = 1, height = 1, color_count = 0, reserved = 0, planes = 0,
        bit_count = 32, image_size = 3, image_offset = 0\<rparr> # []) empty_icon
     = Inr ([], empty_icon\<lparr>images := [[0xAA, 0xBB], [1, 2, 3]]\<rparr>)
   \<and> icon_ctor (Some ([0, 0, 1, 0, 2, 0,
                        1, 1, 0, 0, 1, 0, 32, 0, 2, 0, 0, 0, 99, 0, 0, 0,
                        1, 1, 0, 0, 0, 0, 32, 0, 3, 0, 0, 0, 0, 0, 0, 0,
                        0xAA, 0xBB, 1, 2, 3]))
     = Inr \<lparr>resource_header = \<lparr>header.reserved = 0, type = 1, entries_count = 2\<rparr>,
            resource_entries =
              [\<lparr>entry.width = 1, height = 1, color_count = 0, reserved = 0, planes = 1,
                 bit_count = 32, resource_size = 2, icon_id = 1\<rparr>,
               \<lparr>entry.width = 1, height = 1, color_count = 0, reserved = 0, planes = 0,
                 bit_count = 32, resource_size = 3, icon_id = 2\<rparr>],
            images = [[0xAA, 0xBB], [1, 2, 3]]\<rparr>"
proof -
  let ?e1 = "\<lparr>icon_entry.width = 1, height = 1, color_count = 0, reserved = 0, planes = 1,
        bit_count = 32, image_size = 2, image_offset = 99\<rparr>"
  let ?e2 = "\<lparr>icon_entry.width = 1, height = 1, color_count = 0, reserved = 0, planes = 0,
        bit_count = 32, image_size = 3, image_offset = 0\<rparr>"
  let ?bs = "[0, 0, 1, 0, 2, 0,
                        1, 1, 0, 0, 1, 0, 32, 0, 2, 0, 0, 0, 99, 0, 0, 0,
                        1, 1, 0, 0, 0, 0, 32, 0, 3, 0, 0, 0, 0, 0, 0, 0,
                        0xAA, 0xBB, 1, 2, 3] :: byte list"
  let ?ic = "\<lparr>resource_header = \<lparr>header.reserved = 0, type = 1, entries_count = 2\<rparr>,
            resource_entries =
              [\<lparr>entry.width = 1, height = 1, color_count = 0, reserved = 0, planes = 1,
                 bit_count = 32, resource_size = 2, icon_id = 1\<rparr>,
               \<lparr>entry.width = 1, height = 1, color_count = 0, reserved = 0, planes = 0,
                 bit_count = 32, resource_size = 3, icon_id = 2\<rparr>],
            images = [[0xAA, 0xBB], [1, 2, 3]]\<rparr>"
  let ?ic1 = "empty_icon\<lparr>resource_header := \<lparr>header.reserved = 0, type = 1, entries_count = 2\<rparr>\<rparr>"
  have h1: "(\<forall>x \<in> set [?e1]. icon_entry.reserved x = 0 \<and> (icon_entry.planes x = 0 \<or> icon_entry.planes x = 1))
      \<and> sum_list (map (\<lambda>x. unat (image_size x)) [?e1]) \<le> length [0xAA, 0xBB, 1, 2, 3 :: byte]"
    by simp
  have h2: "read_icon_entries ?bs empty_icon = Inr ([?e1, ?e2], [0xAA, 0xBB, 1, 2, 3], ?ic1)"
    by code_simp
  have h3: "icon_ctor (Some ?bs) = Inr ?ic"
    by code_simp
  note t = read_images_file_order [of "[?e1]" "[0xAA, 0xBB, 1, 2, 3]" ?e2 "[]" empty_icon
      ?bs "[?e1, ?e2]" "[0xAA, 0xBB, 1, 2, 3]" ?ic1 ?ic "\<lambda>x. 0" "[]"]
  from t h2 h3 have "images ?ic =
          map (\<lambda>i. take (unat (image_size ([?e1, ?e2] ! i)))
                     (drop (6 + 16 * length [?e1, ?e2]
                              + sum_list (map (\<lambda>x. unat (image_size x)) (take i [?e1, ?e2]))) ?bs))
              [0..<length [?e1, ?e2]]"
    by blast
  from t h1 have "read_images [0xAA, 0xBB, 1, 2, 3] ([?e1] @ ?e2 # []) empty_icon
     = Inr ([], empty_icon\<lparr>images := [[0xAA, 0xBB], [1, 2, 3]]\<rparr>)"
    by (simp add: empty_icon_def)
  with h3 show ?thesis by simp
qed

subsection \<open>Resource entries and their ordinals\<close>

lemma icon_ctor_result:
  assumes "read_icon_entries bs empty_icon = Inr (es, fl1, ic1)" and "icon_ctor (Some bs) = Inr ic"
  shows "resource_header ic = \<lparr>header.reserved = 0, type = 1, entries_count = le16 (drop 4 bs)\<rparr>"
    and "resource_entries ic =
          map (\<lambda>i. \<lparr>entry.width = icon_entry.width (es ! i),
                     entry.height = icon_entry.height (es ! i),
                     entry.color_count = icon_entry.color_count (es ! i),
                     entry.reserved = icon_entry.reserved (es ! i),
                     entry.planes = icon_entry.planes (es ! i),
                     entry.bit_count = icon_entry.bit_count (es ! i),
                     resource_size = image_size (es ! i),
                     icon_id = word_of_nat (Suc i)\<rparr>) [0..<length es]"
proof -
  from assms obtain fl2 ic2 where ri: "read_images fl1 es ic1 = Inr (fl2, ic2)"
    and ce: "convert_entries es ic2 = Inr ic"
    by (auto elim!: icon_ctor_Inr)
  from assms(1) have ic1: "ic1 = empty_icon\<lparr>resource_header :=
                 \<lparr>header.reserved = 0, type = 1, entries_count = le16 (drop 4 bs)\<rparr>\<rparr>"
    by (rule read_icon_entries_Inr(5))
  from read_images_Inr_valid [OF ri]
  have v: "\<forall>e \<in> set es. icon_entry.reserved e = 0 \<and> (icon_entry.planes e = 0 \<or> icon_entry.planes e = 1)"
    and fit: "sum_list (map (\<lambda>e. unat (image_size e)) es) \<le> length fl1"
    by simp_all
  from ri read_images_ok [OF v fit, of ic1]
  have ic2: "resource_header ic2 = resource_header ic1" "resource_entries ic2 = resource_entries ic1"
    by auto
  from ce convert_loop_ok [OF v, of 0 ic2]
  have ic: "ic = ic2\<lparr>resource_entries := resource_entries ic2 @
          map (\<lambda>i. \<lparr>entry.width = icon_entry.width (es ! i),
                     entry.height = icon_entry.height (es ! i),
                     entry.color_count = icon_entry.color_count (es ! i),
                     entry.reserved = icon_entry.reserved (es ! i),
                     entry.planes = icon_entry.planes (es ! i),
                     entry.bit_count = icon_entry.bit_count (es ! i),
                     resource_size = image_size (es ! i),
                     icon_id = 0 + word_of_nat (Suc i)\<rparr>) [0..<length es]\<rparr>"
    by (simp add: convert_entries_def)
  show "resource_header ic = \<lparr>header.reserved = 0, type = 1, entries_count = le16 (drop 4 bs)\<rparr>"
    by (subst ic) (simp add: ic2 ic1)
  show "resource_entries ic =
          map (\<lambda>i. \<lparr>entry.width = icon_entry.width (es ! i),
                     entry.height = icon_entry.height (es ! i),
                     entry.color_count = icon_entry.color_count (es ! i),
                     entry.reserved = icon_entry.reserved (es ! i),
                     entry.planes = icon_entry.planes (es ! i),
                     entry.bit_count = icon_entry.bit_count (es ! i),
                     resource_size = image_size (es ! i),
                     icon_id = word_of_nat (Suc i)\<rparr>) [0..<length es]"
    by (subst ic) (simp add: ic2 ic1 empty_icon_def)
qed

lemma unat_u16_of_nat: "n < 65536 \<Longrightarrow> unat (word_of_nat n :: u16) = n"
  by (simp add: unat_of_nat)

text \<open>
  Claim C8. For every successfully loaded icon, with \<open>es\<close> the directory entries in the order
  \<^verbatim>\<open>read_icon_entries\<close> read them from the file: there is one resource entry per directory
  entry, as many as the header's \<open>entries_count\<close>; their \<open>icon_id\<close>s are exactly
  \<open>1, 2, \<dots>, entries_count\<close> in stored order, hence pairwise distinct; and the \<open>i\<close>-th resource
  entry is the conversion of the \<open>i\<close>-th directory entry (the 16 bytes at offset \<open>6 + 16 * i\<close>),
  with \<open>resource_size\<close> equal to its \<open>image_size\<close> and the geometry fields copied.
\<close>

theorem icon_ids_sequential:
  assumes "read_icon_entries bs empty_icon = Inr (es, fl1, ic1)"
      and "icon_ctor (Some bs) = Inr ic"
  shows "length (resource_entries ic) = length es
       \<and> length es = unat (entries_count (resource_header ic))
       \<and> map (\<lambda>e. unat (icon_id e)) (resource_entries ic) = [1..<Suc (length es)]
       \<and> distinct (map icon_id (resource_entries ic))
       \<and> (\<forall>i < length es.
            es ! i = decode_icon_entry (take 16 (drop (6 + 16 * i) bs))
          \<and> unat (icon_id (resource_entries ic ! i)) = i + 1
          \<and> resource_size (resource_entries ic ! i) = image_size (es ! i)
          \<and> entry.width (resource_entries ic ! i) = icon_entry.width (es ! i)
          \<and> entry.height (resource_entries ic ! i) = icon_entry.height (es ! i)
          \<and> entry.color_count (resource_entries ic ! i) = icon_entry.color_count (es ! i)
          \<and> entry.reserved (resource_entries ic ! i) = icon_entry.reserved (es ! i)
          \<and> entry.planes (resource_entries ic ! i) = icon_entry.planes (es ! i)
          \<and> entry.bit_count (resource_entries ic ! i) = icon_entry.bit_count (es ! i))"
proof -
  note hd = icon_ctor_result(1) [OF assms] and re = icon_ctor_result(2) [OF assms]
  note n = read_icon_entries_Inr(1) [OF assms(1)] and dec = read_icon_entries_Inr(6) [OF assms(1)]
  have "unat (le16 (drop 4 bs)) < 2 ^ LENGTH(16)" by (rule unsigned_less)
  then have bound: "length es < 65536" by (simp add: n)
  have len: "length (resource_entries ic) = length es" by (simp add: re)
  have cnt: "length es = unat (entries_count (resource_header ic))" by (simp add: hd n)
  have ids: "map (\<lambda>e. unat (icon_id e)) (resource_entries ic) = [1..<Suc (length es)]"
  proof (rule nth_equalityI)
    show "length (map (\<lambda>e. unat (icon_id e)) (resource_entries ic)) = length [1..<Suc (length es)]"
      by (simp add: re del: upt_Suc)
  next
    fix i assume "i < length (map (\<lambda>e. unat (icon_id e)) (resource_entries ic))"
    then have i: "i < length es" by (simp add: re)
    with bound have "Suc i < 65536" by simp
    then have "unat (word_of_nat (Suc i) :: u16) = Suc i" by (rule unat_u16_of_nat)
    with i show "map (\<lambda>e. unat (icon_id e)) (resource_entries ic) ! i = [1..<Suc (length es)] ! i"
      by (simp add: re del: of_nat_Suc upt_Suc)
  qed
  have "distinct (map unat (map icon_id (resource_entries ic)))"
    using ids by (simp add: o_def)
  then have dist: "distinct (map icon_id (resource_entries ic))"
    using distinct_map [of unat "map icon_id (resource_entries ic)"] by blast
  have fields: "\<forall>i < length es.
            es ! i = decode_icon_entry (take 16 (drop (6 + 16 * i) bs))
          \<and> unat (icon_id (resource_entries ic ! i)) = i + 1
          \<and> resource_size (resource_entries ic ! i) = image_size (es ! i)
          \<and> entry.width (resource_entries ic ! i) = icon_entry.width (es ! i)
          \<and> entry.height (resource_entries ic ! i) = icon_entry.height (es ! i)
          \<and> entry.color_count (resource_entries ic ! i) = icon_entry.color_count (es ! i)
          \<and> entry.reserved (resource_entries ic ! i) = icon_entry.reserved (es ! i)
          \<and> entry.planes (resource_entries ic ! i) = icon_entry.planes (es ! i)
          \<and> entry.bit_count (resource_entries ic ! i) = icon_entry.bit_count (es ! i)"
  proof (intro allI impI)
    fix i assume i: "i < length es"
    from ids i len have "unat (icon_id (resource_entries ic ! i)) = [1..<Suc (length es)] ! i"
      by (metis length_map nth_map)
    with i have id: "unat (icon_id (resource_entries ic ! i)) = i + 1" by (simp del: upt_Suc)
    from i dec have d: "es ! i = decode_icon_entry (take 16 (drop (6 + 16 * i) bs))" by simp
    from i have r: "resource_entries ic ! i = \<lparr>entry.width = icon_entry.width (es ! i),
                     entry.height = icon_entry.height (es ! i),
                     entry.color_count = icon_entry.color_count (es ! i),
                     entry.reserved = icon_entry.reserved (es ! i),
                     entry.planes = icon_entry.planes (es ! i),
                     entry.bit_count = icon_entry.bit_count (es ! i),
                     resource_size = image_size (es ! i),
                     icon_id = word_of_nat (Suc i)\<rparr>"
      by (simp add: re del: of_nat_Suc)
    show "es ! i = decode_icon_entry (take 16 (drop (6 + 16 * i) bs))
          \<and> unat (icon_id (resource_entries ic ! i)) = i + 1
          \<and> resource_size (resource_entries ic ! i) = image_size (es ! i)
          \<and> entry.width (resource_entries ic ! i) = icon_entry.width (es ! i)
          \<and> entry.height (resource_entries ic ! i) = icon_entry.height (es ! i)
          \<and> entry.color_count (resource_entries ic ! i) = icon_entry.color_count (es ! i)
          \<and> entry.reserved (resource_entries ic ! i) = icon_entry.reserved (es ! i)
          \<and> entry.planes (resource_entries ic ! i) = icon_entry.planes (es ! i)
          \<and> entry.bit_count (resource_entries ic ! i) = icon_entry.bit_count (es ! i)"
      using d id by (simp add: r)
  qed
  from len cnt ids dist fields show ?thesis by blast
qed


theorem icon_ids_sequential_witness:
  "map (\<lambda>e. unat (icon_id e))
     (resource_entries
        \<lparr>resource_header = \<lparr>header.reserved = 0, type = 1, entries_count = 2\<rparr>,
         resource_entries =
           [\<lparr>entry.width = 1, height = 1, color_count = 0, reserved = 0, planes = 1,
              bit_count = 32, resource_size = 2, icon_id = 1\<rparr>,
            \<lparr>entry.width = 1, height = 1, color_count = 0, reserved = 0, planes = 0,
              bit_count = 32, resource_size = 3, icon_id = 2\<rparr>],
         images = [[0xAA, 0xBB], [1, 2, 3]]\<rparr>)
     = [1..<Suc (length
          [\<lparr>icon_entry.width = 1, height = 1, color_count = 0, reserved = 0, planes = 1,
             bit_count = 32, image_size = 2, image_offset = 99\<rparr>,
           \<lparr>icon_entry.width = 1, height = 1, color_count = 0, reserved = 0, planes = 0,
             bit_count = 32, image_size = 3, image_offset = 0\<rparr>])]
   \<and> icon_ctor (Some ([0, 0, 1, 0, 2, 0,
                        1, 1, 0, 0, 1, 0, 32, 0, 2, 0, 0, 0, 99, 0, 0, 0,
                        1, 1, 0, 0, 0, 0, 32, 0, 3, 0, 0, 0, 0, 0, 0, 0,
                        0xAA, 0xBB, 1, 2, 3]))
     = Inr \<lparr>resource_header = \<lparr>header.reserved = 0, type = 1, entries_count = 2\<rparr>,
            resource_entries =
              [\<lparr>entry.width = 1, height = 1, color_count = 0, reserved = 0, planes = 1,
                 bit_count = 32, resource_size = 2, icon_id = 1\<rparr>,
               \<lparr>entry.width = 1, height = 1, color_count = 0, reserved = 0, planes = 0,
                 bit_count = 32, resource_size = 3, icon_id = 2\<rparr>],
            images = [[0xAA, 0xBB], [1, 2, 3]]\<rparr>"
proof -
  let ?e1 = "\<lparr>icon_entry.width = 1, height = 1, color_count = 0, reserved = 0, planes = 1,
        bit_count = 32, image_size = 2, image_offset = 99\<rparr>"
  let ?e2 = "\<lparr>icon_entry.width = 1, height = 1, color_count = 0, reserved = 0, planes = 0,
        bit_count = 32, image_size = 3, image_offset = 0\<rparr>"
  let ?bs = "[0, 0, 1, 0, 2, 0,
                        1, 1, 0, 0, 1, 0, 32, 0, 2, 0, 0, 0, 99, 0, 0, 0,
                        1, 1, 0, 0, 0, 0, 32, 0, 3, 0, 0, 0, 0, 0, 0, 0,
                        0xAA, 0xBB, 1, 2, 3] :: byte list"
  let ?ic = "\<lparr>resource_header = \<lparr>header.reserved = 0, type = 1, entries_count = 2\<rparr>,
            resource_entries =
              [\<lparr>entry.width = 1, height = 1, color_count = 0, reserved = 0, planes = 1,
                 bit_count = 32, resource_size = 2, icon_id = 1\<rparr>,
               \<lparr>entry.width = 1, height = 1, color_count = 0, reserved = 0, planes = 0,
                 bit_count = 32, resource_size = 3, icon_id = 2\<rparr>],
            images = [[0xAA, 0xBB], [1, 2, 3]]\<rparr>"
  let ?ic1 = "empty_icon\<lparr>resource_header := \<lparr>header.reserved = 0, type = 1, entries_count = 2\<rparr>\<rparr>"
  have h1: "read_icon_entries ?bs empty_icon = Inr ([?e1, ?e2], [0xAA, 0xBB, 1, 2, 3], ?ic1)"
    by code_simp
  have h2: "icon_ctor (Some ?bs) = Inr ?ic"
    by code_simp
  from icon_ids_sequential [OF h1 h2] h2 show ?thesis by blast
qed

subsection \<open>The serialized resource header\<close>

lemma bytes16_le16: "2 \<le> length xs \<Longrightarrow> bytes16 (le16 xs) = take 2 xs"
proof -
  assume "2 \<le> length xs"
  then obtain a b ys where xs: "xs = a # b # ys"
    by (cases xs; cases "tl xs") auto
  have "unat a < 2 ^ LENGTH(8)" "unat b < 2 ^ LENGTH(8)" by (rule unsigned_less)+
  then have ab: "unat a < 256" "unat b < 256" by simp_all
  then have "unat a + 256 * unat b < 65536" by simp
  then have "unat (word_of_nat (unat a + 256 * unat b) :: u16) = unat a + 256 * unat b"
    by (rule unat_u16_of_nat)
  then show ?thesis using ab by (simp add: xs bytes16_def le16_def numeral_2_eq_2)
qed

lemma serialize_decode_header:
  assumes "6 \<le> length bs"
  shows "serialize_header \<lparr>header.reserved = le16 bs, type = le16 (drop 2 bs),
           entries_count = le16 (drop 4 bs)\<rparr> = take 6 bs"
proof -
  have "take 6 bs = take 2 bs @ take 2 (drop 2 bs) @ take 2 (drop 4 bs)"
    using take_add [of 2 4 bs] take_add [of 2 2 "drop 2 bs"] by simp
  with assms show ?thesis
    by (simp add: serialize_header_def bytes16_le16)
qed

text \<open>
  Claim C3. \<^verbatim>\<open>get_header\<close> is a total function of the icon's members. Its result is the
  6-byte header (reserved, type, count, each a little-endian \<open>u16\<close>) followed by the resource
  records in stored order, \<open>6 + 14 * n\<close> bytes for \<open>n\<close> records. Record \<open>i\<close> occupies the 14 bytes at
  offset \<open>6 + 14 * i\<close>: width, height, color count and reserved as single bytes, then planes
  and bit count as \<open>u16\<close>, the resource size as \<open>u32\<close> and the icon id as \<open>u16\<close>; it holds no
  offset field. For a loaded icon \<open>n\<close> is the header's entry count and the first 6 bytes are
  those of the file.
\<close>

theorem get_header_layout:
  "length (get_header ic) = 6 + 14 * length (resource_entries ic)
   \<and> take 6 (get_header ic) = serialize_header (resource_header ic)
   \<and> le16 (get_header ic) = header.reserved (resource_header ic)
   \<and> le16 (drop 2 (get_header ic)) = type (resource_header ic)
   \<and> le16 (drop 4 (get_header ic)) = entries_count (resource_header ic)
   \<and> drop 6 (get_header ic) = concat (map serialize_entry (resource_entries ic))
   \<and> (\<forall>i < length (resource_entries ic).
         take 14 (drop (6 + 14 * i) (get_header ic)) = serialize_entry (resource_entries ic ! i)
       \<and> length (serialize_entry (resource_entries ic ! i)) = 14
       \<and> serialize_entry (resource_entries ic ! i) ! 0 = entry.width (resource_entries ic ! i)
       \<and> serialize_entry (resource_entries ic ! i) ! 1 = entry.height (resource_entries ic ! i)
       \<and> serialize_entry (resource_entries ic ! i) ! 2 = entry.color_count (resource_entries ic ! i)
       \<and> serialize_entry (resource_entries ic ! i) ! 3 = entry.reserved (resource_entries ic ! i)
       \<and> le16 (drop 4 (serialize_entry (resource_entries ic ! i))) = entry.planes (resource_entries ic ! i)
       \<and> le16 (drop 6 (serialize_entry (resource_entries ic ! i))) = entry.bit_count (resource_entries ic ! i)
       \<and> le32 (drop 8 (serialize_entry (resource_entries ic ! i))) = resource_size (resource_entries ic ! i)
       \<and> le16 (drop 12 (serialize_entry (resource_entries ic ! i))) = icon_id (resource_entries ic ! i))
   \<and> (icon_ctor (Some bs) = Inr ic \<longrightarrow>
         length (resource_entries ic) = unat (entries_count (resource_header ic))
       \<and> take 6 (get_header ic) = take 6 bs)"
proof -
  let ?out = "get_header ic" and ?es = "resource_entries ic" and ?h = "resource_header ic"
  have l2: "\<And>w. length (bytes16 w) = 2" by (simp add: bytes16_def)
  have len: "length ?out = 6 + 14 * length ?es"
    by (simp add: get_header_eq length_concat_serialize)
  have hd: "take 6 ?out = serialize_header ?h"
    by (simp add: get_header_eq)
  have f1: "le16 ?out = header.reserved ?h"
    by (simp add: get_header_eq serialize_header_def)
  have f2: "le16 (drop 2 ?out) = type ?h"
    by (simp add: get_header_eq serialize_header_def l2)
  have f3: "le16 (drop 4 ?out) = entries_count ?h"
    by (simp add: get_header_eq serialize_header_def l2)
  have tl: "drop 6 ?out = concat (map serialize_entry ?es)"
    by (simp add: get_header_eq)
  have recs: "\<forall>i < length ?es.
         take 14 (drop (6 + 14 * i) ?out) = serialize_entry (?es ! i)
       \<and> length (serialize_entry (?es ! i)) = 14
       \<and> serialize_entry (?es ! i) ! 0 = entry.width (?es ! i)
       \<and> serialize_entry (?es ! i) ! 1 = entry.height (?es ! i)
       \<and> serialize_entry (?es ! i) ! 2 = entry.color_count (?es ! i)
       \<and> serialize_entry (?es ! i) ! 3 = entry.reserved (?es ! i)
       \<and> le16 (drop 4 (serialize_entry (?es ! i))) = entry.planes (?es ! i)
       \<and> le16 (drop 6 (serialize_entry (?es ! i))) = entry.bit_count (?es ! i)
       \<and> le32 (drop 8 (serialize_entry (?es ! i))) = resource_size (?es ! i)
       \<and> le16 (drop 12 (serialize_entry (?es ! i))) = icon_id (?es ! i)"
  proof (intro allI impI)
    fix i assume i: "i < length ?es"
    have "take 14 (drop (14 * i) (drop 6 ?out)) = serialize_entry (?es ! i)"
      unfolding tl by (rule concat_slice) (use i in simp_all)
    then have "take 14 (drop (6 + 14 * i) ?out) = serialize_entry (?es ! i)"
      by (simp add: add.commute)
    then show "take 14 (drop (6 + 14 * i) ?out) = serialize_entry (?es ! i)
       \<and> length (serialize_entry (?es ! i)) = 14
       \<and> serialize_entry (?es ! i) ! 0 = entry.width (?es ! i)
       \<and> serialize_entry (?es ! i) ! 1 = entry.height (?es ! i)
       \<and> serialize_entry (?es ! i) ! 2 = entry.color_count (?es ! i)
       \<and> serialize_entry (?es ! i) ! 3 = entry.reserved (?es ! i)
       \<and> le16 (drop 4 (serialize_entry (?es ! i))) = entry.planes (?es ! i)
       \<and> le16 (drop 6 (serialize_entry (?es ! i))) = entry.bit_count (?es ! i)
       \<and> le32 (drop 8 (serialize_entry (?es ! i))) = resource_size (?es ! i)
       \<and> le16 (drop 12 (serialize_entry (?es ! i))) = icon_id (?es ! i)"
      by (simp only: serialize_entry_fields length_serialize_entry simp_thms)
  qed
  have loaded: "icon_ctor (Some bs) = Inr ic \<longrightarrow>
         length ?es = unat (entries_count ?h) \<and> take 6 ?out = take 6 bs"
  proof
    assume a: "icon_ctor (Some bs) = Inr ic"
    then obtain es fl1 ic1 where r: "read_icon_entries bs empty_icon = Inr (es, fl1, ic1)"
      by (auto elim!: icon_ctor_Inr)
    note h = icon_ctor_result(1) [OF r a] and e = icon_ctor_result(2) [OF r a]
    note n = read_icon_entries_Inr(1) [OF r]
    have cnt: "length ?es = unat (entries_count ?h)" by (simp add: h e n)
    from r have "read_header bs empty_icon = Inr (drop 6 bs, ic1)"
      using read_icon_entries_Inr(5) [OF r]
      by (auto simp add: read_icon_entries_def read_header_chain split: if_splits sum.splits)
    then have six: "6 \<le> length bs" and z: "le16 bs = 0" and o: "le16 (drop 2 bs) = 1"
      by (auto simp add: read_header_chain split: if_splits)
    have "serialize_header ?h = take 6 bs"
      using serialize_decode_header [OF six] z o by (simp add: h)
    with hd cnt show "length ?es = unat (entries_count ?h) \<and> take 6 ?out = take 6 bs" by simp
  qed
  from len hd f1 f2 f3 tl recs loaded show ?thesis by blast
qed


theorem get_header_layout_witness:
  "icon_ctor (Some ([0, 0, 1, 0, 2, 0,
                        1, 1, 0, 0, 1, 0, 32, 0, 2, 0, 0, 0, 99, 0, 0, 0,
                        1, 1, 0, 0, 0, 0, 32, 0, 3, 0, 0, 0, 0, 0, 0, 0,
                        0xAA, 0xBB, 1, 2, 3]))
     = Inr \<lparr>resource_header = \<lparr>header.reserved = 0, type = 1, entries_count = 2\<rparr>,
            resource_entries =
              [\<lparr>entry.width = 1, height = 1, color_count = 0, reserved = 0, planes = 1,
                 bit_count = 32, resource_size = 2, icon_id = 1\<rparr>,
               \<lparr>entry.width = 1, height = 1, color_count = 0, reserved = 0, planes = 0,
                 bit_count = 32, resource_size = 3, icon_id = 2\<rparr>],
            images = [[0xAA, 0xBB], [1, 2, 3]]\<rparr>
   \<and> get_header \<lparr>resource_header = \<lparr>header.reserved = 0, type = 1, entries_count = 2\<rparr>,
            resource_entries =
              [\<lparr>entry.width = 1, height = 1, color_count = 0, reserved = 0, planes = 1,
                 bit_count = 32, resource_size = 2, icon_id = 1\<rparr>,
               \<lparr>entry.width = 1, height = 1, color_count = 0, reserved = 0, planes = 0,
                 bit_count = 32, resource_size = 3, icon_id = 2\<rparr>],
            images = [[0xAA, 0xBB], [1, 2, 3]]\<rparr>
     = [0, 0, 1, 0, 2, 0,
        1, 1, 0, 0, 1, 0, 32, 0, 2, 0, 0, 0, 1, 0,
        1, 1, 0, 0, 0, 0, 32, 0, 3, 0, 0, 0, 2, 0]
   \<and> length (get_header \<lparr>resource_header = \<lparr>header.reserved = 0, type = 1, entries_count = 2\<rparr>,
            resource_entries =
              [\<lparr>entry.width = 1, height = 1, color_count = 0, reserved = 0, planes = 1,
                 bit_count = 32, resource_size = 2, icon_id = 1\<rparr>,
               \<lparr>entry.width = 1, height = 1, color_count = 0, reserved = 0, planes = 0,
                 bit_count = 32, resource_size = 3, icon_id = 2\<rparr>],
            images = [[0xAA, 0xBB], [1, 2, 3]]\<rparr>) = 6 + 14 * 2"
proof -
  let ?bs = "[0, 0, 1, 0, 2, 0,
                        1, 1, 0, 0, 1, 0, 32, 0, 2, 0, 0, 0, 99, 0, 0, 0,
                        1, 1, 0, 0, 0, 0, 32, 0, 3, 0, 0, 0, 0, 0, 0, 0,
                        0xAA, 0xBB, 1, 2, 3] :: byte list"
  let ?ic = "\<lparr>resource_header = \<lparr>header.reserved = 0, type = 1, entries_count = 2\<rparr>,
            resource_entries =
              [\<lparr>entry.width = 1, height = 1, color_count = 0, reserved = 0, planes = 1,
                 bit_count = 32, resource_size = 2, icon_id = 1\<rparr>,
               \<lparr>entry.width = 1, height = 1, color_count = 0, reserved = 0, planes = 0,
                 bit_count = 32, resource_size = 3, icon_id = 2\<rparr>],
            images = [[0xAA, 0xBB], [1, 2, 3]]\<rparr>"
  have h: "icon_ctor (Some ?bs) = Inr ?ic"
    by code_simp
  have g: "get_header ?ic = [0, 0, 1, 0, 2, 0,
        1, 1, 0, 0, 1, 0, 32, 0, 2, 0, 0, 0, 1, 0,
        1, 1, 0, 0, 0, 0, 32, 0, 3, 0, 0, 0, 2, 0]"
    by code_simp
  from get_header_layout [of ?ic ?bs] h
  have "length (get_header ?ic) = 6 + 14 * length (resource_entries ?ic)"
    and "length (resource_entries ?ic) = unat (entries_count (resource_header ?ic))"
    by blast+
  then have "length (get_header ?ic) = 6 + 14 * 2" by simp
  with h g show ?thesis by blast
qed

subsection \<open>The single-image round trip\<close>

lemma ico22_load:
  assumes "4264 \<le> length rest"
  shows "icon_ctor (Some (expected_header @ rest))
     = Inr \<lparr>resource_header = \<lparr>header.reserved = 0, type = 1, entries_count = 1\<rparr>,
            resource_entries =
              [\<lparr>entry.width = 0x20, height = 0x20, color_count = 0, reserved = 0, planes = 1,
                 bit_count = 0x20, resource_size = 0x10A8, icon_id = 1\<rparr>],
            images = [take 4264 rest]\<rparr>"
  using assms
  by (simp add: expected_header_def icon_ctor_def open_file_def read_icon_entries_def read_header_def file_read_def
      decode_header_def decode_icon_entry_def le16_def le32_def convert_entries_def empty_icon_def
      Let_def)

lemma le_bytes_2: "le_bytes 2 v = [word_of_nat (v mod 256), word_of_nat (v div 256 mod 256)]"
  by (simp add: numeral_2_eq_2)

lemma le_bytes_4:
  "le_bytes 4 v = [word_of_nat (v mod 256), word_of_nat (v div 256 mod 256),
                   word_of_nat (v div 256 div 256 mod 256),
                   word_of_nat (v div 256 div 256 div 256 mod 256)]"
proof -
  have e: "(4::nat) = Suc (Suc (Suc (Suc 0)))" by simp
  show ?thesis unfolding e by simp
qed

lemma get_header_image1:
  "get_header \<lparr>resource_header = \<lparr>header.reserved = 0, type = 1, entries_count = 1\<rparr>,
            resource_entries =
              [\<lparr>entry.width = 0x20, height = 0x20, color_count = 0, reserved = 0, planes = 1,
                 bit_count = 0x20, resource_size = 0x10A8, icon_id = 1\<rparr>],
            images = imgs\<rparr>
     = [0x00, 0x00, 0x01, 0x00, 0x01, 0x00, 0x20, 0x20, 0x00, 0x00, 0x01, 0x00,
        0x20, 0x00, 0xA8, 0x10, 0x00, 0x00, 0x01, 0x00]"
  by (simp add: get_header_def serialize_header_def serialize_entry_def bytes16_def bytes32_def
      le_bytes_2 le_bytes_4)


lemma ico_single_load:
  assumes "4264 \<le> length rest"
  shows "icon_ctor (Some
       ([0x00, 0x00, 0x01, 0x00, 0x01, 0x00, 0x20, 0x20, 0x00, 0x00, 0x01, 0x00,
         0x20, 0x00, 0xA8, 0x10, 0x00, 0x00, o1, o2, o3, o4] @ rest))
     = Inr \<lparr>resource_header = \<lparr>header.reserved = 0, type = 1, entries_count = 1\<rparr>,
            resource_entries =
              [\<lparr>entry.width = 0x20, height = 0x20, color_count = 0, reserved = 0, planes = 1,
                 bit_count = 0x20, resource_size = 0x10A8, icon_id = 1\<rparr>],
            images = [take 4264 rest]\<rparr>"
  using assms
  by (simp add: icon_ctor_def open_file_def read_icon_entries_def read_header_def file_read_def
      decode_header_def decode_icon_entry_def le16_def le32_def convert_entries_def empty_icon_def
      Let_def)

lemma length_get_header: "length (get_header ic) = 6 + 14 * length (resource_entries ic)"
  by (simp add: get_header_eq length_concat_serialize)

lemma length_get_header_not_22: "length (get_header ic) \<noteq> 22"
  unfolding length_get_header by presburger

text \<open>
  Claim C2 does not hold of the code: parsing a single-image [0x00, 0x00, 0x01, 0x00, 0x01, 0x00, 0x20, 0x20, 0x00, 0x00, 0x01, 0x00,
          0x20, 0x00, 0xA8, 0x10, 0x00, 0x00, 0x16, 0x00, 0x00, 0x00] whose first 22 bytes are
  \<open>00 00 01 00 01 00 20 20 00 00 01 00 20 00 A8 10 00 00 01 00 00 00\<close> and serializing the
  resource header of the result does not give those 22 bytes back, as the unit test
  \<^verbatim>\<open>icon.get_success\<close> expects of \<^verbatim>\<open>get_header()\<close> (\<^verbatim>\<open>EXPECT_EQ(22, header.size())\<close> and
  equality with \<^verbatim>\<open>expected_header\<close>). \<^verbatim>\<open>serialize\<close> copies \<^verbatim>\<open>sizeof(entry)\<close> bytes of a struct
  declared \<^verbatim>\<open>PACKED\<close>, 14 bytes, so the result has the 20 bytes \<open>00 00 01 00 01 00\<close> and
  \<open>20 20 00 00 01 00 20 00 A8 10 00 00 01 00\<close>; the two closing bytes \<open>00 00\<close> of the test's
  sequence are missing. The rest of the claim holds on this file: there is one image blob, of
  4264 (\<open>0x10A8\<close>) bytes, and the sole resource entry has \<open>icon_id\<close> 1. The first file is the
  22 bytes of the claim followed by a payload of 4264 zero bytes; the second is the same icon
  with the entry's offset field set to 22, where the payload starts. The reader never uses that
  field, and the outcome is the same.
\<close>

theorem expected_header_round_trip:
  "icon_ctor (Some (expected_header @ replicate 4264 0))
     = Inr \<lparr>resource_header = \<lparr>header.reserved = 0, type = 1, entries_count = 1\<rparr>,
            resource_entries =
              [\<lparr>entry.width = 0x20, height = 0x20, color_count = 0, reserved = 0, planes = 1,
                 bit_count = 0x20, resource_size = 0x10A8, icon_id = 1\<rparr>],
            images = [replicate 4264 0]\<rparr>
   \<and> get_header \<lparr>resource_header = \<lparr>header.reserved = 0, type = 1, entries_count = 1\<rparr>,
            resource_entries =
              [\<lparr>entry.width = 0x20, height = 0x20, color_count = 0, reserved = 0, planes = 1,
                 bit_count = 0x20, resource_size = 0x10A8, icon_id = 1\<rparr>],
            images = [replicate 4264 0]\<rparr>
     = [0x00, 0x00, 0x01, 0x00, 0x01, 0x00, 0x20, 0x20, 0x00, 0x00, 0x01, 0x00,
        0x20, 0x00, 0xA8, 0x10, 0x00, 0x00, 0x01, 0x00]
   \<and> length (get_header \<lparr>resource_header = \<lparr>header.reserved = 0, type = 1, entries_count = 1\<rparr>,
            resource_entries =
              [\<lparr>entry.width = 0x20, height = 0x20, color_count = 0, reserved = 0, planes = 1,
                 bit_count = 0x20, resource_size = 0x10A8, icon_id = 1\<rparr>],
            images = [replicate 4264 0]\<rparr>) = 20
   \<and> get_header \<lparr>resource_header = \<lparr>header.reserved = 0, type = 1, entries_count = 1\<rparr>,
            resource_entries =
              [\<lparr>entry.width = 0x20, height = 0x20, color_count = 0, reserved = 0, planes = 1,
                 bit_count = 0x20, resource_size = 0x10A8, icon_id = 1\<rparr>],
            images = [replicate 4264 0]\<rparr>
     \<noteq> expected_header
   \<and> icon_ctor (Some
        ([0x00, 0x00, 0x01, 0x00, 0x01, 0x00, 0x20, 0x20, 0x00, 0x00, 0x01, 0x00,
          0x20, 0x00, 0xA8, 0x10, 0x00, 0x00, 0x16, 0x00, 0x00, 0x00]
         @ replicate 4264 0))
     = Inr \<lparr>resource_header = \<lparr>header.reserved = 0, type = 1, entries_count = 1\<rparr>,
            resource_entries =
              [\<lparr>entry.width = 0x20, height = 0x20, color_count = 0, reserved = 0, planes = 1,
                 bit_count = 0x20, resource_size = 0x10A8, icon_id = 1\<rparr>],
            images = [replicate 4264 0]\<rparr>"
proof -
  have h: "4264 \<le> length (replicate 4264 (0 :: byte))"
    by simp
  from ico22_load [OF h] ico_single_load [OF h, of "0x16" 0 0 0] show ?thesis
    by (simp add: get_header_image1 expected_header_def)
qed

section \<open>Properties of the bitmap operations\<close>

subsection \<open>Arithmetic within the range of the types\<close>

lemma int32_id: "- 2147483648 \<le> x \<Longrightarrow> x < 2147483648 \<Longrightarrow> int32 x = x"
  by (simp add: int32_def)

lemma size_t_id: "0 \<le> x \<Longrightarrow> x < 18446744073709551616 \<Longrightarrow> size_t x = nat x"
  by (simp add: size_t_def)

lemma sdiv_nonneg: "0 \<le> a \<Longrightarrow> 0 < b \<Longrightarrow> a sdiv b = a div (b :: int)"
  by (cases "a = 0") (simp_all add: signed_divide_int_def)

subsection \<open>The pixel loops of the writer\<close>

lemma pixel_at_Some: "j < length v \<Longrightarrow> pixel_at v (int j) = Some (v ! j)"
  by (simp add: pixel_at_def)

lemma take3_drop:
  "j + 3 \<le> length v \<Longrightarrow> take 3 (drop j v) = [v ! j, v ! (j + 1), v ! (j + 2)]"
proof -
  assume a: "j + 3 \<le> length v"
  have e: "(3::nat) = Suc (Suc (Suc 0))" by simp
  from a show ?thesis
    unfolding e by (simp add: take_Suc_conv_app_nth)
qed

lemma nat_idx_bound:
  fixes Y X W H :: nat
  assumes "Y < H" and "X < W"
  shows "Y * W + X < H * W"
proof -
  from assms have "Suc Y * W \<le> H * W" by (intro mult_le_mono1) simp
  with assms show ?thesis by simp
qed

lemma lt3:
  fixes m c :: nat
  assumes "m * 3 + 3 < c"
  shows "m < c" and "m * 3 < c" and "m * 3 + 1 < c" and "m * 3 + 2 < c"
  using assms by linarith+

lemma le3:
  fixes m c :: nat
  assumes "m * 3 + 3 \<le> c"
  shows "m * 3 < c" and "m * 3 + 1 < c" and "m * 3 + 2 < c"
  using assms by linarith+

lemma int32_of_nat: "n < 2147483648 \<Longrightarrow> int32 (int n) = int n"
  by (rule int32_id) simp_all

lemma put_row_ok:
  fixes W H Y :: nat
  assumes w: "bitmap.width this = int W"
      and len: "length (pixels this) = W * H * 3"
      and small: "W * H * 4 < 2147483648"
      and y: "Y < H"
  shows "X \<le> W \<Longrightarrow> put_row this (int Y) (int X) out =
     Inr (out @ concat (map (\<lambda>k. take 3 (drop (3 * (Y * W + k)) (pixels this)) @ [255]) [X..<W]))"
proof (induction "W - X" arbitrary: X out)
  case 0
  then have "X = W" by simp
  then show ?case by (simp add: w)
next
  case (Suc n)
  then have x: "X < W" by simp
  let ?j = "Y * W + X"
  let ?ps = "pixels this"
  from nat_idx_bound [OF y x] have j: "?j < H * W" .
  then have j3: "?j * 3 + 3 \<le> W * H * 3" by (simp add: mult.commute)
  from small have "W * H * 3 < 2147483648" by linarith
  with j3 have b: "?j * 3 + 3 < 2147483648" by linarith
  from lt3(1) [OF b] have yw: "Y * W < 2147483648" by linarith
  have "int32 (int (Y * W)) = int (Y * W)"
    by (rule int32_of_nat) (rule yw)
  then have p1: "int32 (int Y * int W) = int (Y * W)"
    by (simp only: of_nat_mult)
  have "int32 (int ?j) = int ?j"
    by (rule int32_of_nat) (rule lt3(1) [OF b])
  then have p2: "int32 (int (Y * W) + int X) = int ?j"
    by (simp only: of_nat_add)
  have "int32 (int (?j * 3)) = int (?j * 3)"
    by (rule int32_of_nat) (rule lt3(2) [OF b])
  then have p3: "int32 (int ?j * 3) = int (?j * 3)"
    by (simp only: of_nat_mult of_nat_numeral)
  have "int32 (int (?j * 3)) = int (?j * 3)"
    by (rule int32_of_nat) (rule lt3(2) [OF b])
  then have q0: "int32 (int (?j * 3) + 0) = int (?j * 3)"
    by (simp only: add_0_right)
  have "int32 (int (?j * 3 + 1)) = int (?j * 3 + 1)"
    by (rule int32_of_nat) (rule lt3(3) [OF b])
  then have q1: "int32 (int (?j * 3) + 1) = int (?j * 3 + 1)"
    by (simp only: of_nat_add of_nat_1)
  have "int32 (int (?j * 3 + 2)) = int (?j * 3 + 2)"
    by (rule int32_of_nat) (rule lt3(4) [OF b])
  then have q2: "int32 (int (?j * 3) + 2) = int (?j * 3 + 2)"
    by (simp only: of_nat_add of_nat_numeral)
  from j3 have jl: "?j * 3 + 3 \<le> length ?ps" by (simp only: len)
  have r0: "pixel_at ?ps (int (?j * 3)) = Some (?ps ! (?j * 3))"
    by (rule pixel_at_Some) (rule le3(1) [OF jl])
  have r1: "pixel_at ?ps (int (?j * 3 + 1)) = Some (?ps ! (?j * 3 + 1))"
    by (rule pixel_at_Some) (rule le3(2) [OF jl])
  have r2: "pixel_at ?ps (int (?j * 3 + 2)) = Some (?ps ! (?j * 3 + 2))"
    by (rule pixel_at_Some) (rule le3(3) [OF jl])
  from x have xw: "int X < int W" by simp
  have sx1: "int X + 1 = int (Suc X)" by simp
  have step: "put_row this (int Y) (int X) out =
      put_row this (int Y) (int (Suc X))
        (out @ [?ps ! (?j * 3), ?ps ! (?j * 3 + 1), ?ps ! (?j * 3 + 2), 255])"
    apply (subst put_row.simps)
    apply (simp only: w p1 p2 p3 q0 q1 q2 r0 r1 r2 Let_def xw if_True prod.case option.case sx1)
    done
  from take3_drop [OF jl]
  have t: "take 3 (drop (3 * ?j) ?ps) = [?ps ! (?j * 3), ?ps ! (?j * 3 + 1), ?ps ! (?j * 3 + 2)]"
    by (simp only: mult.commute [of 3 ?j])
  from Suc.hyps(2) x have n: "n = W - Suc X" by simp
  from x have sx: "Suc X \<le> W" by simp
  from x have u: "[X..<W] = X # [Suc X..<W]" by (rule upt_conv_Cons)
  show ?case
    unfolding step Suc.hyps(1) [OF n sx] u
    by (simp only: list.map concat.simps t append_Cons append_Nil append_assoc)
qed


lemma put_rows_ok:
  fixes W H :: nat
  assumes w: "bitmap.width this = int W"
      and len: "length (pixels this) = W * H * 3"
      and small: "W * H * 4 < 2147483648"
  shows "Y1 \<le> H \<Longrightarrow> put_rows this (int Y1 - 1) out =
     Inr (out @ concat (map (\<lambda>r. concat (map (\<lambda>k. take 3 (drop (3 * (r * W + k)) (pixels this)) @ [255])
                                             [0..<W]))
                           (rev [0..<Y1])))"
proof (induction Y1 arbitrary: out)
  case 0
  show ?case by (subst put_rows.simps) simp
next
  case (Suc n)
  then have n: "n < H" and n': "n \<le> H" by simp_all
  have e: "int (Suc n) - 1 = int n" by simp
  have z: "(0::int) = int 0" by simp
  have row: "put_row this (int n) 0 out =
      Inr (out @ concat (map (\<lambda>k. take 3 (drop (3 * (n * W + k)) (pixels this)) @ [255]) [0..<W]))"
    by (subst z, rule put_row_ok [OF w len small n]) simp
  have step: "put_rows this (int (Suc n) - 1) out =
      put_rows this (int n - 1)
        (out @ concat (map (\<lambda>k. take 3 (drop (3 * (n * W + k)) (pixels this)) @ [255]) [0..<W]))"
    unfolding e by (subst put_rows.simps) (simp add: row del: put_rows.simps put_row.simps)
  show ?case
    unfolding step Suc.IH [OF n'] by simp
qed


lemma size_t_of_nat: "n < 18446744073709551616 \<Longrightarrow> size_t (int n) = n"
  by (simp add: size_t_def)

lemma mask_le:
  fixes W H :: nat
  assumes "0 < W"
  shows "(W + 31) div 32 * 4 * H \<le> W * H * 4"
proof -
  from assms have "(W + 31) div 32 \<le> W" by arith
  then have "(W + 31) div 32 * (4 * H) \<le> W * (4 * H)" by (rule mult_le_mono1)
  then show ?thesis by (simp add: mult.assoc mult.commute)
qed

lemma saveToIco_ok:
  fixes W H :: nat
  assumes w: "bitmap.width this = int W"
      and h: "bitmap.height this = int H"
      and wpos: "0 < W" and hpos: "0 < H"
      and depth: "bitDepth this = 24"
      and len: "length (pixels this) = W * H * 3"
      and small: "W * H * 4 < 2147483648"
  shows "saveToIco this True =
     Inr (True,
          (bytes16 0 @ bytes16 1 @ bytes16 1)
          @ ([word_of_nat W, word_of_nat H, 0, 0] @ bytes16 1 @ bytes16 32
             @ bytes32 (word_of_nat (40 + (W * H * 4 + (W + 31) div 32 * 4 * H)))
             @ bytes32 22)
          @ encode_info_header
              \<lparr>biSize = 40, biWidth = word_of_nat W, biHeight = word_of_nat (H * 2),
               biPlanes = 1, biBitCount = 32, biCompression = 0,
               biSizeImage = word_of_nat (W * H * 4),
               biXPelsPerMeter = 0, biYPelsPerMeter = 0, biClrUsed = 0, biClrImportant = 0\<rparr>
          @ concat (map (\<lambda>r. concat (map (\<lambda>k. take 3 (drop (3 * (r * W + k)) (pixels this)) @ [255])
                                          [0..<W]))
                        (rev [0..<H]))
          @ replicate ((W + 31) div 32 * 4 * H) 0)"
proof -
  let ?M = "(W + 31) div 32"
  from hpos have "W * 1 \<le> W * H" by (intro mult_le_mono2) simp
  then have wle: "W \<le> W * H" by simp
  from wpos have "H * 1 \<le> H * W" by (intro mult_le_mono2) simp
  then have hle: "H \<le> W * H" by (simp add: mult.commute)
  from wle small have wb: "W + 31 < 2147483648" by linarith
  from mask_le [OF wpos, of H] small have mb: "?M * 4 * H < 2147483648" by linarith
  from wpos have mw: "?M \<le> W" by arith
  have "int32 (int (W * H)) = int (W * H)"
    by (rule int32_of_nat) (use small in linarith)
  then have f1: "int32 (int W * int H) = int (W * H)"
    by (simp only: of_nat_mult)
  have "int32 (int (W * H * 4)) = int (W * H * 4)"
    by (rule int32_of_nat) (rule small)
  then have f2: "int32 (int (W * H) * 4) = int (W * H * 4)"
    by (simp only: of_nat_mult of_nat_numeral)
  have f3: "size_t (int (W * H * 4)) = W * H * 4"
    by (rule size_t_of_nat) (use small in linarith)
  have "int32 (int (W + 31)) = int (W + 31)"
    by (rule int32_of_nat) (rule wb)
  then have g1: "int32 (int W + 31) = int (W + 31)"
    by (simp only: of_nat_add of_nat_numeral)
  have g2: "int (W + 31) sdiv 32 = int ?M"
    by (subst sdiv_nonneg) (simp_all add: zdiv_int)
  have g3: "int32 (int ?M) = int ?M"
    by (rule int32_of_nat) (use mw wb in linarith)
  have "int32 (int (?M * 4)) = int (?M * 4)"
    by (rule int32_of_nat) (use mw wb in linarith)
  then have g4: "int32 (int ?M * 4) = int (?M * 4)"
    by (simp only: of_nat_mult of_nat_numeral)
  have "int32 (int (?M * 4 * H)) = int (?M * 4 * H)"
    by (rule int32_of_nat) (rule mb)
  then have g5: "int32 (int (?M * 4) * int H) = int (?M * 4 * H)"
    by (simp only: of_nat_mult)
  have g6: "size_t (int (?M * 4 * H)) = ?M * 4 * H"
    by (rule size_t_of_nat) (use mb in linarith)
  have p64: "(2::nat) ^ 64 = 18446744073709551616" by simp
  have d1: "(W * H * 4 + ?M * 4 * H) mod 2 ^ 64 = W * H * 4 + ?M * 4 * H"
    unfolding p64 by (rule mod_less) (use small mb in linarith)
  have d2: "(40 + (W * H * 4 + ?M * 4 * H)) mod 2 ^ 64 = 40 + (W * H * 4 + ?M * 4 * H)"
    unfolding p64 by (rule mod_less) (use small mb in linarith)
  have h1: "int32 (int H - 1) = int H - 1"
    by (rule int32_id) (use hpos hle small in linarith)+
  have "int32 (int (H * 2)) = int (H * 2)"
    by (rule int32_of_nat) (use hle small in linarith)
  then have h2: "int32 (int H * 2) = int (H * 2)"
    by (simp only: of_nat_mult of_nat_numeral)
  have "vector_max_size = 9223372036854775807" by (simp add: vector_max_size_def)
  with mb have v: "\<not> vector_max_size < ?M * 4 * H"
    by linarith
  have pre: "\<not> (int W \<le> 0 \<or> int H \<le> 0 \<or> (24::int) \<noteq> 24)"
    using wpos hpos by simp
  note rows = put_rows_ok [OF w len small, of H, OF order_refl]
  show ?thesis
    unfolding saveToIco_def
    apply (simp only: w h depth pre if_False not_True_eq_False not_not Let_def
        f1 f2 f3 g1 g2 g3 g4 g5 g6 d1 d2 h1 h2 v rows sum.case of_int_of_nat_eq)
    apply simp
    done
qed

subsection \<open>Evaluating the loader and the writer on concrete files\<close>

text \<open>
  The files below are BMP files: the 14-byte file header (\<open>BM\<close>, file size, two reserved
  fields, \<^verbatim>\<open>bfOffBits\<close>), the 40-byte info header, a palette where the format has one, and
  the pixel rows, each padded to a multiple of 4 bytes.
\<close>

lemmas hdr_eval = decode_file_header_def decode_info_header_def le16_def le32_def
lemmas num_eval = size_t_def int32_def vector_max_size_def resize_def signed_divide_int_def

lemma load_2x2:
  "loadFromImage default_bitmap (Some
     [66, 77, 70, 0, 0, 0, 0, 0, 0, 0, 54, 0, 0, 0, 40, 0, 0, 0, 2, 0, 0, 0, 2, 0, 0, 0, 1,
      0, 24, 0, 0, 0, 0, 0, 0, 0, 0, 0, 0, 0, 0, 0, 0, 0, 0, 0, 0, 0, 0, 0, 0, 0, 0, 0, 1,
      2, 3, 4, 5, 6, 0, 0, 7, 8, 9, 10, 11, 12, 0, 0])
   = Inr (True, \<lparr>bitmap.width = 2, height = 2, bitDepth = 24,
                 pixels = [7, 8, 9, 10, 11, 12, 1, 2, 3, 4, 5, 6]\<rparr>)"
  unfolding loadFromImage_def Let_def
  apply (simp add: istream_read_def del: load_rows.simps)
  apply (simp add: hdr_eval del: load_rows.simps)
  apply (simp add: num_eval istream_seekg_def default_bitmap_def del: load_rows.simps)
  apply (simp add: num_eval istream_read_def Let_def)
  apply (simp add: hdr_eval)
  done

lemma upt_0_2: "[0..<2] = [0, 1]"
  by (simp add: numeral_2_eq_2)

lemma save_2x2:
  "saveToIco \<lparr>bitmap.width = 2, height = 2, bitDepth = 24,
              pixels = [7, 8, 9, 10, 11, 12, 1, 2, 3, 4, 5, 6]\<rparr> True
   = Inr (True,
         [0, 0, 1, 0, 1, 0, 2, 2, 0, 0, 1, 0, 32, 0, 64, 0, 0, 0, 22, 0, 0, 0, 40, 0, 0, 0,
          2, 0, 0, 0, 4, 0, 0, 0, 1, 0, 32, 0, 0, 0, 0, 0, 16, 0, 0, 0, 0, 0, 0, 0, 0, 0,
          0, 0, 0, 0, 0, 0, 0, 0, 0, 0, 1, 2, 3, 255, 4, 5, 6, 255, 7, 8, 9, 255, 10, 11,
          12, 255] @ replicate 8 0)"
proof -
  let ?b = "\<lparr>bitmap.width = 2, height = 2, bitDepth = 24,
              pixels = [7, 8, 9, 10, 11, 12, 1, 2, 3, 4, 5, 6 :: byte]\<rparr>"
  have "saveToIco ?b True = Inr (True,
          (bytes16 0 @ bytes16 1 @ bytes16 1)
          @ ([word_of_nat 2, word_of_nat 2, 0, 0] @ bytes16 1 @ bytes16 32
             @ bytes32 (word_of_nat (40 + (2 * 2 * 4 + (2 + 31) div 32 * 4 * 2)))
             @ bytes32 22)
          @ encode_info_header
              \<lparr>biSize = 40, biWidth = word_of_nat 2, biHeight = word_of_nat (2 * 2),
               biPlanes = 1, biBitCount = 32, biCompression = 0,
               biSizeImage = word_of_nat (2 * 2 * 4),
               biXPelsPerMeter = 0, biYPelsPerMeter = 0, biClrUsed = 0, biClrImportant = 0\<rparr>
          @ concat (map (\<lambda>r. concat (map (\<lambda>k. take 3 (drop (3 * (r * 2 + k)) (pixels ?b)) @ [255])
                                          [0..<2]))
                        (rev [0..<2]))
          @ replicate ((2 + 31) div 32 * 4 * 2) 0)"
    by (rule saveToIco_ok) simp_all
  also have "\<dots> = Inr (True,
         [0, 0, 1, 0, 1, 0, 2, 2, 0, 0, 1, 0, 32, 0, 64, 0, 0, 0, 22, 0, 0, 0, 40, 0, 0, 0,
          2, 0, 0, 0, 4, 0, 0, 0, 1, 0, 32, 0, 0, 0, 0, 0, 16, 0, 0, 0, 0, 0, 0, 0, 0, 0,
          0, 0, 0, 0, 0, 0, 0, 0, 0, 0, 1, 2, 3, 255, 4, 5, 6, 255, 7, 8, 9, 255, 10, 11,
          12, 255] @ replicate 8 0)"
    by (simp add: bytes16_def bytes32_def le_bytes_2 le_bytes_4 encode_info_header_def upt_0_2)
  finally show ?thesis .
qed

subsection \<open>The boolean results\<close>

text \<open>
  Claim C9. Whenever \<^verbatim>\<open>loadFromImage\<close> or \<^verbatim>\<open>saveToIco\<close> returns normally, the boolean it
  returns is \<^verbatim>\<open>true\<close>: on every input, and for the writer whether or not the destination
  could be opened. A failure of either operation is therefore never a \<^verbatim>\<open>false\<close> result; it
  is always one of the thrown errors.
\<close>

theorem bitmap_results_are_true:
  "(loadFromImage this path = Inr (b, bmp) \<longrightarrow> b)
   \<and> (saveToIco this' out_is_open = Inr (b', out) \<longrightarrow> b')"
proof (intro conjI impI)
  assume "loadFromImage this path = Inr (b, bmp)"
  then show b
    by (auto simp add: loadFromImage_def Let_def simp del: load_rows.simps
        split: option.splits prod.splits sum.splits if_splits)
next
  assume "saveToIco this' out_is_open = Inr (b', out)"
  then show b'
    by (auto simp add: saveToIco_def Let_def simp del: put_rows.simps
        split: sum.splits if_splits)
qed

theorem bitmap_results_are_true_witness:
  "loadFromImage default_bitmap (Some
     [66, 77, 70, 0, 0, 0, 0, 0, 0, 0, 54, 0, 0, 0, 40, 0, 0, 0, 2, 0, 0, 0, 2, 0, 0, 0, 1,
      0, 24, 0, 0, 0, 0, 0, 0, 0, 0, 0, 0, 0, 0, 0, 0, 0, 0, 0, 0, 0, 0, 0, 0, 0, 0, 0, 1,
      2, 3, 4, 5, 6, 0, 0, 7, 8, 9, 10, 11, 12, 0, 0])
   = Inr (True, \<lparr>bitmap.width = 2, height = 2, bitDepth = 24,
                 pixels = [7, 8, 9, 10, 11, 12, 1, 2, 3, 4, 5, 6]\<rparr>)
   \<and> saveToIco \<lparr>bitmap.width = 2, height = 2, bitDepth = 24,
              pixels = [7, 8, 9, 10, 11, 12, 1, 2, 3, 4, 5, 6]\<rparr> True
   = Inr (True,
         [0, 0, 1, 0, 1, 0, 2, 2, 0, 0, 1, 0, 32, 0, 64, 0, 0, 0, 22, 0, 0, 0, 40, 0, 0, 0,
          2, 0, 0, 0, 4, 0, 0, 0, 1, 0, 32, 0, 0, 0, 0, 0, 16, 0, 0, 0, 0, 0, 0, 0, 0, 0,
          0, 0, 0, 0, 0, 0, 0, 0, 0, 0, 1, 2, 3, 255, 4, 5, 6, 255, 7, 8, 9, 255, 10, 11,
          12, 255] @ replicate 8 0)"
  using bitmap_results_are_true [of default_bitmap "Some
     [66, 77, 70, 0, 0, 0, 0, 0, 0, 0, 54, 0, 0, 0, 40, 0, 0, 0, 2, 0, 0, 0, 2, 0, 0, 0, 1,
      0, 24, 0, 0, 0, 0, 0, 0, 0, 0, 0, 0, 0, 0, 0, 0, 0, 0, 0, 0, 0, 0, 0, 0, 0, 0, 0, 1,
      2, 3, 4, 5, 6, 0, 0, 7, 8, 9, 10, 11, 12, 0, 0]" True
      "\<lparr>bitmap.width = 2, height = 2, bitDepth = 24,
                 pixels = [7, 8, 9, 10, 11, 12, 1, 2, 3, 4, 5, 6]\<rparr>"
      "\<lparr>bitmap.width = 2, height = 2, bitDepth = 24,
                 pixels = [7, 8, 9, 10, 11, 12, 1, 2, 3, 4, 5, 6]\<rparr>" True True
      "
         [0, 0, 1, 0, 1, 0, 2, 2, 0, 0, 1, 0, 32, 0, 64, 0, 0, 0, 22, 0, 0, 0, 40, 0, 0, 0,
          2, 0, 0, 0, 4, 0, 0, 0, 1, 0, 32, 0, 0, 0, 0, 0, 16, 0, 0, 0, 0, 0, 0, 0, 0, 0,
          0, 0, 0, 0, 0, 0, 0, 0, 0, 0, 1, 2, 3, 255, 4, 5, 6, 255, 7, 8, 9, 255, 10, 11,
          12, 255] @ replicate 8 0"]
    load_2x2 save_2x2
  by simp

subsection \<open>Short pixel data\<close>

text \<open>
  Claim C5 does not hold of the code. The file below declares a 2 by 2 image of 24 bits per
  pixel with pixel data at offset 54 and a file size of 70 bytes, but ends after the first of
  its two 8-byte rows.
  \<^verbatim>\<open>loadFromImage\<close> does not fail: the second \<^verbatim>\<open>read\<close> fails unnoticed and leaves the row
  buffer as it was, and the loader returns \<^verbatim>\<open>true\<close> with a bitmap whose top row is a second
  copy of the only row read.
\<close>

theorem loadFromImage_short_pixel_data:
  "loadFromImage default_bitmap (Some
     [66, 77, 70, 0, 0, 0, 0, 0, 0, 0, 54, 0, 0, 0, 40, 0, 0, 0, 2, 0, 0, 0, 2, 0, 0, 0, 1,
      0, 24, 0, 0, 0, 0, 0, 0, 0, 0, 0, 0, 0, 0, 0, 0, 0, 0, 0, 0, 0, 0, 0, 0, 0, 0, 0, 1,
      2, 3, 4, 5, 6, 0, 0])
   = Inr (True, \<lparr>bitmap.width = 2, height = 2, bitDepth = 24,
                 pixels = [1, 2, 3, 4, 5, 6, 1, 2, 3, 4, 5, 6]\<rparr>)"
  unfolding loadFromImage_def Let_def
  apply (simp add: istream_read_def del: load_rows.simps)
  apply (simp add: hdr_eval del: load_rows.simps)
  apply (simp add: num_eval istream_seekg_def default_bitmap_def del: load_rows.simps)
  apply (simp add: num_eval istream_read_def Let_def)
  apply (simp add: hdr_eval)
  done

subsection \<open>Top-down bitmaps\<close>

text \<open>
  Claim C4 does not hold of the code. \<^verbatim>\<open>loadFromImage\<close> stores \<^verbatim>\<open>biHeight\<close> as it is, sign
  included, although it computes \<^verbatim>\<open>topDown\<close> from that sign. The first file is a top-down
  1 by 1 image of 1 bit per pixel (\<^verbatim>\<open>biHeight = -1\<close>, two palette entries, pixel data at
  offset 62): its buffer has no bytes, the row loop does not run, and the loader returns a
  bitmap whose recorded height is \<open>-1\<close>, not 1. The second file is a top-down 1 by 1 image of
  24 bits per pixel: the size passed to \<^verbatim>\<open>pixels.resize\<close> is \<open>(2^64 - 1) * 3 mod 2^64\<close> and
  the loader ends in \<^verbatim>\<open>std::length_error\<close> instead of a bitmap of height 1.
\<close>

theorem loadFromImage_top_down:
  "loadFromImage default_bitmap (Some
     [66, 77, 66, 0, 0, 0, 0, 0, 0, 0, 62, 0, 0, 0, 40, 0, 0, 0, 1, 0, 0, 0, 255, 255, 255,
      255, 1, 0, 1, 0, 0, 0, 0, 0, 0, 0, 0, 0, 0, 0, 0, 0, 0, 0, 0, 0, 0, 0, 0, 0, 0, 0, 0,
      0, 0, 0, 0, 0, 255, 255, 255, 0, 128, 0, 0, 0])
   = Inr (True, \<lparr>bitmap.width = 1, height = - 1, bitDepth = 1, pixels = []\<rparr>)
   \<and> loadFromImage default_bitmap (Some
     [66, 77, 58, 0, 0, 0, 0, 0, 0, 0, 54, 0, 0, 0, 40, 0, 0, 0, 1, 0, 0, 0, 255, 255, 255,
      255, 1, 0, 24, 0, 0, 0, 0, 0, 0, 0, 0, 0, 0, 0, 0, 0, 0, 0, 0, 0, 0, 0, 0, 0, 0, 0,
      0, 0, 1, 2, 3, 0])
   = Inl LengthError"
proof
  show "loadFromImage default_bitmap (Some
     [66, 77, 66, 0, 0, 0, 0, 0, 0, 0, 62, 0, 0, 0, 40, 0, 0, 0, 1, 0, 0, 0, 255, 255, 255,
      255, 1, 0, 1, 0, 0, 0, 0, 0, 0, 0, 0, 0, 0, 0, 0, 0, 0, 0, 0, 0, 0, 0, 0, 0, 0, 0, 0,
      0, 0, 0, 0, 0, 255, 255, 255, 0, 128, 0, 0, 0])
   = Inr (True, \<lparr>bitmap.width = 1, height = - 1, bitDepth = 1, pixels = []\<rparr>)"
    unfolding loadFromImage_def Let_def
    apply (simp add: istream_read_def del: load_rows.simps)
    apply (simp add: hdr_eval del: load_rows.simps)
    apply (simp add: num_eval istream_seekg_def default_bitmap_def del: load_rows.simps)
    apply (simp add: num_eval istream_read_def Let_def)
    apply (simp add: hdr_eval)
    done
  show "loadFromImage default_bitmap (Some
     [66, 77, 58, 0, 0, 0, 0, 0, 0, 0, 54, 0, 0, 0, 40, 0, 0, 0, 1, 0, 0, 0, 255, 255, 255,
      255, 1, 0, 24, 0, 0, 0, 0, 0, 0, 0, 0, 0, 0, 0, 0, 0, 0, 0, 0, 0, 0, 0, 0, 0, 0, 0,
      0, 0, 1, 2, 3, 0])
   = Inl LengthError"
    unfolding loadFromImage_def Let_def
    apply (simp add: istream_read_def del: load_rows.simps)
    apply (simp add: hdr_eval del: load_rows.simps)
    apply (simp add: num_eval del: load_rows.simps)
    done
qed

subsection \<open>The size of the loaded buffer\<close>

text \<open>
  Whenever the loader returns a bitmap whose \<open>width * height\<close> is positive and within the
  range of \<^verbatim>\<open>int\<close>, its pixel buffer has \<open>width * height * (bitDepth div 8)\<close> bytes: the row
  loop never changes the size that \<^verbatim>\<open>resize\<close> gave it.
\<close>

lemma length_resize [simp]: "length (resize n v) = n"
  by (simp add: resize_def)

lemma load_rows_length:
  "load_rows y hgt topDown paddedRowSize rawRowSize fl row pxs = Inr r \<Longrightarrow> length r = length pxs"
proof (induction y hgt topDown paddedRowSize rawRowSize fl row pxs rule: load_rows.induct)
  case (1 y hgt topDown paddedRowSize rawRowSize fl row pxs)
  show ?case
  proof (cases "y < hgt")
    case False
    with "1.prems" show ?thesis by (subst (asm) load_rows.simps) simp
  next
    case True
    obtain row' fl' where rd: "istream_read paddedRowSize row fl = (row', fl')"
      by (cases "istream_read paddedRowSize row fl")
    let ?destY = "if topDown then y else int32 (int32 (hgt - 1) - y)"
    let ?dest = "(size_t ?destY * rawRowSize) mod 2 ^ 64"
    from "1.prems" True rd have ok: "rawRowSize \<le> length row' \<and> ?dest + rawRowSize \<le> length pxs"
      and rec: "load_rows (y + 1) hgt topDown paddedRowSize rawRowSize fl' row'
          (take ?dest pxs @ take rawRowSize row' @ drop (?dest + rawRowSize) pxs) = Inr r"
      by (subst (asm) load_rows.simps, simp add: Let_def del: load_rows.simps split: if_splits)+
    from "1.IH" [OF True rd [symmetric] refl refl ok rec] ok
    show ?thesis by simp
  qed
qed

lemma loadFromImage_buffer_length:
  assumes "loadFromImage this path = Inr (b, bmp)"
      and pos: "0 < bitmap.width bmp * bitmap.height bmp"
      and small: "bitmap.width bmp * bitmap.height bmp < 2147483648"
  shows "length (pixels bmp) = nat (bitmap.width bmp * bitmap.height bmp) * nat (bitDepth bmp div 8)"
proof -
  from assms(1) obtain bytes where p: "path = Some bytes"
    by (cases path) (simp_all add: loadFromImage_def)
  obtain fh fl1 where r1:
    "istream_read 14 (replicate 14 0) \<lparr>contents = bytes, pos = 0, failed = False\<rparr> = (fh, fl1)"
    by (cases "istream_read 14 (replicate 14 0) \<lparr>contents = bytes, pos = 0, failed = False\<rparr>")
  obtain ih fl2 where r2: "istream_read 40 (replicate 40 0) fl1 = (ih, fl2)"
    by (cases "istream_read 40 (replicate 40 0) fl1")
  let ?w = "sint (biWidth (decode_info_header ih))"
  let ?h = "sint (biHeight (decode_info_header ih))"
  let ?d = "uint (biBitCount (decode_info_header ih))"
  let ?bpp = "size_t (?d sdiv 8)"
  let ?padded = "size_t (int32 (int32 (int32 (int32 (?d * ?w) + 31) sdiv 32) * 4))"
  let ?raw = "(size_t ?w * ?bpp) mod 2 ^ 64"
  let ?n = "(size_t (int32 (?w * ?h)) * ?bpp) mod 2 ^ 64"
  have unf: "loadFromImage this path =
     (if bfType (decode_file_header fh) \<noteq> 0x4D42 then Inl NotABitmap
      else if biCompression (decode_info_header ih) \<noteq> 0 then Inl UnsupportedCompression
      else if vector_max_size < ?n then Inl LengthError
      else if vector_max_size < ?padded then Inl LengthError
      else (case load_rows 0 ?h (?h < 0) ?padded ?raw
                   (istream_seekg (unat (bfOffBits (decode_file_header fh))) fl2)
                   (replicate ?padded 0) (resize ?n (pixels this)) of
              Inl e \<Rightarrow> Inl e
            | Inr pixels' \<Rightarrow>
                Inr (True, \<lparr>bitmap.width = ?w, height = ?h, bitDepth = ?d, pixels = pixels'\<rparr>)))"
    unfolding loadFromImage_def p Let_def by (simp add: r1 r2 del: load_rows.simps)
  from assms(1) obtain pixels' where
    rows: "load_rows 0 ?h (?h < 0) ?padded ?raw
                   (istream_seekg (unat (bfOffBits (decode_file_header fh))) fl2)
                   (replicate ?padded 0) (resize ?n (pixels this)) = Inr pixels'"
    and bmp: "bmp = \<lparr>bitmap.width = ?w, height = ?h, bitDepth = ?d, pixels = pixels'\<rparr>"
    unfolding unf by (auto simp del: load_rows.simps split: if_splits sum.splits)
  from load_rows_length [OF rows] have len: "length pixels' = ?n" by simp
  from pos small have wh: "0 < ?w * ?h" "?w * ?h < 2147483648" by (simp_all add: bmp)
  have i: "int32 (?w * ?h) = ?w * ?h"
    by (rule int32_id) (use wh in linarith)+
  have s: "size_t (?w * ?h) = nat (?w * ?h)"
    by (rule size_t_id) (use wh in linarith)+
  have "?d < 2 ^ LENGTH(16)" by (rule uint_lt2p)
  then have d: "0 \<le> ?d" "?d < 65536" by simp_all
  then have dd: "0 \<le> ?d div 8" "?d div 8 < 8192" by presburger+
  have sd: "?d sdiv 8 = ?d div 8" by (rule sdiv_nonneg) (use d in simp_all)
  have bpp: "?bpp = nat (?d div 8)"
    unfolding sd by (rule size_t_id) (use dd in linarith)+
  from wh have a: "nat (?w * ?h) \<le> 2147483648" by linarith
  from dd have c: "nat (?d div 8) \<le> 8192" by linarith
  from mult_le_mono [OF a c]
  have "nat (?w * ?h) * nat (?d div 8) < 18446744073709551616" by simp
  then have "(nat (?w * ?h) * nat (?d div 8)) mod 2 ^ 64 = nat (?w * ?h) * nat (?d div 8)"
    by simp
  then have "?n = nat (?w * ?h) * nat (?d div 8)"
    by (simp only: i s bpp)
  with len show ?thesis by (simp add: bmp)
qed

subsection \<open>The layout of the written ICO\<close>

lemma length_bytes16 [simp]: "length (bytes16 w) = 2"
  by (simp add: bytes16_def)

lemma length_bytes32 [simp]: "length (bytes32 w) = 4"
  by (simp add: bytes32_def)

lemma length_encode_info_header [simp]: "length (encode_info_header h) = 40"
  by (simp add: encode_info_header_def)

lemma decode_encode_info_header: "decode_info_header (encode_info_header h @ rest) = h"
  by (simp add: decode_info_header_def encode_info_header_def)

lemma length_concat_const:
  "(\<And>x. x \<in> set xs \<Longrightarrow> length (g x) = c) \<Longrightarrow> length (concat (map g xs)) = c * length xs"
  by (induction xs) auto

lemma length_colour_plane:
  fixes W H :: nat
  assumes len: "length ps = W * H * 3"
  shows "length (concat (map (\<lambda>r. concat (map (\<lambda>k. take 3 (drop (3 * (r * W + k)) ps) @ [255])
                                              [0..<W]))
                            (rev [0..<H]))) = W * H * 4"
proof -
  have row: "length (concat (map (\<lambda>k. take 3 (drop (3 * (r * W + k)) ps) @ [255]) [0..<W])) = 4 * W"
    if "r \<in> set (rev [0..<H])" for r
  proof -
    from that have r: "r < H" by simp
    have "length (concat (map (\<lambda>k. take 3 (drop (3 * (r * W + k)) ps) @ [255]) [0..<W]))
        = 4 * length [0..<W]"
    proof (rule length_concat_const)
      fix k assume "k \<in> set [0..<W]"
      then have k: "k < W" by simp
      from nat_idx_bound [OF r k] have "(r * W + k) * 3 + 3 \<le> H * W * 3" by simp
      then have "3 * (r * W + k) + 3 \<le> length ps" by (simp add: len mult.commute)
      then show "length (take 3 (drop (3 * (r * W + k)) ps) @ [255]) = 4" by simp
    qed
    then show ?thesis by simp
  qed
  have "length (concat (map (\<lambda>r. concat (map (\<lambda>k. take 3 (drop (3 * (r * W + k)) ps) @ [255])
                                              [0..<W]))
                            (rev [0..<H]))) = (4 * W) * length (rev [0..<H])"
    by (rule length_concat_const) (rule row)
  then show ?thesis by (simp add: mult.commute mult.left_commute)
qed


lemma saveToIco_fields:
  fixes W H :: nat
  assumes w: "bitmap.width this = int W"
      and h: "bitmap.height this = int H"
      and wpos: "0 < W" and hpos: "0 < H"
      and depth: "bitDepth this = 24"
      and len: "length (pixels this) = W * H * 3"
      and small: "W * H * 4 < 2147483648"
  shows "\<exists>out. saveToIco this True = Inr (True, out)
          \<and> le16 out = 0 \<and> le16 (drop 2 out) = 1 \<and> le16 (drop 4 out) = 1
          \<and> unat (out ! 6) = W mod 256 \<and> unat (out ! 7) = H mod 256
          \<and> out ! 8 = 0 \<and> out ! 9 = 0
          \<and> le16 (drop 10 out) = 1 \<and> le16 (drop 12 out) = 32
          \<and> unat (le32 (drop 14 out)) = (40 + W * H * 4 + (W + 31) div 32 * 4 * H) mod 2 ^ 32
          \<and> le32 (drop 18 out) = 22
          \<and> decode_info_header (drop 22 out) =
                \<lparr>biSize = 40, biWidth = word_of_nat W, biHeight = word_of_nat (H * 2),
                 biPlanes = 1, biBitCount = 32, biCompression = 0,
                 biSizeImage = word_of_nat (W * H * 4),
                 biXPelsPerMeter = 0, biYPelsPerMeter = 0, biClrUsed = 0, biClrImportant = 0\<rparr>
          \<and> unat (biWidth (decode_info_header (drop 22 out))) = W
          \<and> unat (biHeight (decode_info_header (drop 22 out))) = 2 * H
          \<and> take (W * H * 4) (drop 62 out) =
                concat (map (\<lambda>r. concat (map (\<lambda>k. take 3 (drop (3 * (r * W + k)) (pixels this)) @ [255])
                                              [0..<W]))
                            (rev [0..<H]))
          \<and> drop (62 + W * H * 4) out = replicate ((W + 31) div 32 * 4 * H) 0
          \<and> length out = 62 + W * H * 4 + (W + 31) div 32 * 4 * H"
proof -
  let ?A = "bytes16 0 @ bytes16 1 @ bytes16 1"
  let ?S = "word_of_nat (40 + (W * H * 4 + (W + 31) div 32 * 4 * H)) :: u32"
  let ?B = "[word_of_nat W, word_of_nat H, 0, 0] @ bytes16 1 @ bytes16 32 @ bytes32 ?S @ bytes32 22"
  let ?bih = "\<lparr>biSize = 40, biWidth = word_of_nat W, biHeight = word_of_nat (H * 2),
               biPlanes = 1, biBitCount = 32, biCompression = 0,
               biSizeImage = word_of_nat (W * H * 4),
               biXPelsPerMeter = 0, biYPelsPerMeter = 0, biClrUsed = 0, biClrImportant = 0\<rparr>"
  let ?C = "concat (map (\<lambda>r. concat (map (\<lambda>k. take 3 (drop (3 * (r * W + k)) (pixels this)) @ [255])
                                          [0..<W]))
                        (rev [0..<H]))"
  let ?R = "replicate ((W + 31) div 32 * 4 * H) (0 :: byte)"
  let ?out = "?A @ ?B @ encode_info_header ?bih @ ?C @ ?R"
  have ok: "saveToIco this True = Inr (True, ?out)"
    using saveToIco_ok [OF w h wpos hpos depth len small] by simp
  have lA: "length ?A = 6" by simp
  have lB: "length ?B = 16" by simp
  have lC: "length ?C = W * H * 4" by (rule length_colour_plane) (rule len)
  from hpos have "W * 1 \<le> W * H" by (intro mult_le_mono2) simp
  then have wle: "W \<le> W * H" by simp
  from wpos have "H * 1 \<le> H * W" by (intro mult_le_mono2) simp
  then have hle: "H \<le> W * H" by (simp add: mult.commute)
  have d22: "drop 22 ?out = encode_info_header ?bih @ ?C @ ?R"
    by simp
  have d62: "drop 62 ?out = ?C @ ?R"
    by simp
  have c1: "le16 ?out = 0" by simp
  have c2: "le16 (drop 2 ?out) = 1" by simp
  have c3: "le16 (drop 4 ?out) = 1" by simp
  have c4: "unat (?out ! 6) = W mod 256" by (simp add: nth_append unat_of_nat)
  have c5: "unat (?out ! 7) = H mod 256" by (simp add: nth_append unat_of_nat)
  have c6: "?out ! 8 = 0" by (simp add: nth_append)
  have c7: "?out ! 9 = 0" by (simp add: nth_append)
  have c8: "le16 (drop 10 ?out) = 1" by simp
  have c9: "le16 (drop 12 ?out) = 32" by simp
  have e: "le32 (drop 14 ?out) = ?S" by simp
  have l32: "LENGTH(32) = 32" by simp
  have c10: "unat (le32 (drop 14 ?out)) = (40 + W * H * 4 + (W + 31) div 32 * 4 * H) mod 2 ^ 32"
    by (simp only: e unat_of_nat l32 add.assoc)
  have c11: "le32 (drop 18 ?out) = 22" by simp
  have c12: "decode_info_header (drop 22 ?out) = ?bih"
    unfolding d22 by (rule decode_encode_info_header)
  have "W < 4294967296" using wle small by linarith
  then have "W < 2 ^ 32" by simp
  then have "unat (word_of_nat W :: u32) = W"
    by (simp only: unat_of_nat l32 mod_less)
  then have c13: "unat (biWidth (decode_info_header (drop 22 ?out))) = W"
    unfolding c12 by simp
  have "H * 2 < 4294967296" using hle small by linarith
  then have "H * 2 < 2 ^ 32" by simp
  then have "unat (word_of_nat (H * 2) :: u32) = H * 2"
    by (simp only: unat_of_nat l32 mod_less)
  then have c14: "unat (biHeight (decode_info_header (drop 22 ?out))) = 2 * H"
    unfolding c12 by (simp add: mult.commute)
  have c15: "take (W * H * 4) (drop 62 ?out) = ?C"
    unfolding d62 using lC by simp
  have "drop (62 + W * H * 4) ?out = drop (W * H * 4) (drop 62 ?out)"
    by (simp only: drop_drop add.commute)
  then have c16: "drop (62 + W * H * 4) ?out = ?R"
    unfolding d62 using lC by simp
  have c17: "length ?out = 62 + W * H * 4 + (W + 31) div 32 * 4 * H"
    using lC by simp
  from ok c1 c2 c3 c4 c5 c6 c7 c8 c9 c10 c11 c12 c13 c14 c15 c16 c17
  show "\<exists>out. saveToIco this True = Inr (True, out)
          \<and> le16 out = 0 \<and> le16 (drop 2 out) = 1 \<and> le16 (drop 4 out) = 1
          \<and> unat (out ! 6) = W mod 256 \<and> unat (out ! 7) = H mod 256
          \<and> out ! 8 = 0 \<and> out ! 9 = 0
          \<and> le16 (drop 10 out) = 1 \<and> le16 (drop 12 out) = 32
          \<and> unat (le32 (drop 14 out)) = (40 + W * H * 4 + (W + 31) div 32 * 4 * H) mod 2 ^ 32
          \<and> le32 (drop 18 out) = 22
          \<and> decode_info_header (drop 22 out) = ?bih
          \<and> unat (biWidth (decode_info_header (drop 22 out))) = W
          \<and> unat (biHeight (decode_info_header (drop 22 out))) = 2 * H
          \<and> take (W * H * 4) (drop 62 out) = ?C
          \<and> drop (62 + W * H * 4) out = ?R
          \<and> length out = 62 + W * H * 4 + (W + 31) div 32 * 4 * H"
    by blast
qed

lemma saveToIco_dir_size:
  fixes W H :: nat
  assumes "bitmap.width this = int W" and "bitmap.height this = int H"
      and "0 < W" and "0 < H" and "bitDepth this = 24"
      and "length (pixels this) = W * H * 3" and "W * H * 4 < 2147483648"
  shows "\<exists>out. saveToIco this True = Inr (True, out)
          \<and> unat (le32 (drop 14 out)) = (40 + W * H * 4 + (W + 31) div 32 * 4 * H) mod 2 ^ 32"
  using saveToIco_fields [OF assms] by blast

lemma le16_bytes16_only [simp]: "le16 (bytes16 w) = w"
  using le16_bytes16 [of w "[]"] by simp

lemma le32_bytes32_only [simp]: "le32 (bytes32 w) = w"
  using le32_bytes32 [of w "[]"] by simp

lemma put_row_prefix: "put_row this y x acc = Inr r \<Longrightarrow> \<exists>t. r = acc @ t"
proof (induction this y x acc rule: put_row.induct)
  case (1 this y x out)
  show ?case
  proof (cases "x < bitmap.width this")
    case False
    with "1.prems" show ?thesis by (subst (asm) put_row.simps) simp
  next
    case True
    let ?i = "int32 (int32 (int32 (y * bitmap.width this) + x) * 3)"
    from True "1.prems" obtain b g r' where
      px: "pixel_at (pixels this) (int32 (?i + 0)) = Some b"
          "pixel_at (pixels this) (int32 (?i + 1)) = Some g"
          "pixel_at (pixels this) (int32 (?i + 2)) = Some r'"
      and rec: "put_row this y (x + 1) (out @ [b, g, r', 255]) = Inr r"
      by (subst (asm) put_row.simps)
         (auto simp add: Let_def simp del: put_row.simps split: option.splits)
    from "1.IH" [OF True refl refl px(1) refl px(2) px(3) rec]
    obtain t where "r = (out @ [b, g, r', 255]) @ t" by blast
    then show ?thesis by simp
  qed
qed


lemma put_rows_prefix: "put_rows this y acc = Inr r \<Longrightarrow> \<exists>t. r = acc @ t"
proof (induction this y acc rule: put_rows.induct)
  case (1 this y out)
  show ?case
  proof (cases "y \<ge> 0")
    case False
    with "1.prems" show ?thesis by (subst (asm) put_rows.simps) simp
  next
    case True
    from True "1.prems" obtain out' where
      row: "put_row this y 0 out = Inr out'" and rec: "put_rows this (y - 1) out' = Inr r"
      by (subst (asm) put_rows.simps)
         (auto simp del: put_rows.simps put_row.simps split: sum.splits)
    from put_row_prefix [OF row] obtain t1 where t1: "out' = out @ t1" by blast
    from "1.IH" [OF True row rec] obtain t2 where "r = out' @ t2" by blast
    with t1 show ?thesis by simp
  qed
qed

lemma saveToIco_shape:
  assumes "saveToIco this out_is_open = Inr (b, out)"
  shows "\<exists>X rest. out = (bytes16 0 @ bytes16 1 @ bytes16 1)
            @ ([word_of_int (bitmap.width this), word_of_int (bitmap.height this), 0, 0]
               @ bytes16 1 @ bytes16 32 @ bytes32 X @ bytes32 22)
            @ rest"
proof -
  let ?imageSize = "size_t (int32 (int32 (bitmap.width this * bitmap.height this) * 4))"
  let ?maskSize = "size_t (int32 (int32 (int32 (int32 (bitmap.width this + 31) sdiv 32) * 4)
                              * bitmap.height this))"
  let ?X = "word_of_nat ((40 + (?imageSize + ?maskSize) mod 2 ^ 64) mod 2 ^ 64) :: u32"
  let ?A = "bytes16 0 @ bytes16 1 @ bytes16 1"
  let ?B = "[word_of_int (bitmap.width this), word_of_int (bitmap.height this), 0, 0]
               @ bytes16 1 @ bytes16 32 @ bytes32 ?X @ bytes32 22"
  let ?hd = "?A @ ?B"
  let ?bih = "\<lparr>biSize = 40,
                   biWidth = word_of_int (bitmap.width this),
                   biHeight = word_of_int (int32 (bitmap.height this * 2)),
                   biPlanes = 1, biBitCount = 32, biCompression = 0,
                   biSizeImage = word_of_nat ?imageSize,
                   biXPelsPerMeter = 0, biYPelsPerMeter = 0, biClrUsed = 0, biClrImportant = 0\<rparr>"
  have unf: "saveToIco this out_is_open =
     (if bitmap.width this \<le> 0 \<or> bitmap.height this \<le> 0 \<or> bitDepth this \<noteq> 24
        then Inl UnsupportedBitmapFormat
      else if \<not> out_is_open then Inl DestinationUnavailable
      else (case put_rows this (int32 (bitmap.height this - 1)) (?hd @ encode_info_header ?bih) of
              Inl e \<Rightarrow> Inl e
            | Inr out \<Rightarrow>
                if vector_max_size < ?maskSize then Inl LengthError
                else Inr (True, out @ replicate ?maskSize 0)))"
    unfolding saveToIco_def Let_def by (simp del: put_rows.simps)
  from assms obtain out1 where
    rows: "put_rows this (int32 (bitmap.height this - 1)) (?hd @ encode_info_header ?bih) = Inr out1"
    and out: "out = out1 @ replicate ?maskSize 0"
    unfolding unf by (auto simp del: put_rows.simps split: if_splits sum.splits)
  from put_rows_prefix [OF rows] obtain t where "out1 = (?hd @ encode_info_header ?bih) @ t"
    by blast
  with out have "out = ?A @ ?B @ (encode_info_header ?bih @ t @ replicate ?maskSize 0)"
    by simp
  then show ?thesis by blast
qed

lemma icon_ctor_single:
  "icon_ctor (Some ((bytes16 0 @ bytes16 1 @ bytes16 1)
            @ ([a, c, 0, 0] @ bytes16 1 @ bytes16 32 @ bytes32 X @ bytes32 Y)
            @ rest))
   = (if unat X \<le> length rest
      then Inr \<lparr>resource_header = \<lparr>header.reserved = 0, type = 1, entries_count = 1\<rparr>,
                resource_entries =
                  [\<lparr>entry.width = a, height = c, color_count = 0, reserved = 0, planes = 1,
                     bit_count = 32, resource_size = X, icon_id = 1\<rparr>],
                images = [take (unat X) rest]\<rparr>
      else Inl TruncatedImageData)"
  by (simp add: icon_ctor_def open_file_def read_icon_entries_def read_header_chain file_read_def
      decode_icon_entry_def convert_entries_def empty_icon_def Let_def)

text \<open>
  Claim C7, as amended. Let the bitmap have width \<open>W > 0\<close>, height \<open>H > 0\<close> and bit depth 24,
  a pixel buffer of \<open>W * H * 3\<close> bytes (the size every bitmap returned by the loader has,
  last part of the theorem), and
  \<open>W * H * 4\<close> within the range of \<^verbatim>\<open>int\<close>. Then \<^verbatim>\<open>saveToIco\<close> returns \<^verbatim>\<open>true\<close> and writes: a
  header with reserved 0, type 1 and entry count 1; one directory entry with width and
  height reduced to 8 bits, color count and reserved 0, planes 1, bit count 32, and an
  \<open>imageSize\<close> field equal to \<open>40 + W * H * 4 + ((W + 31) div 32) * 4 * H\<close> reduced modulo
  \<open>2^32\<close>, the width of the field; a 40-byte info header with \<^verbatim>\<open>biWidth = W\<close>,
  \<^verbatim>\<open>biHeight = 2 * H\<close> and \<^verbatim>\<open>biBitCount = 32\<close>; the color plane of \<open>W * H * 4\<close> bytes, the
  rows of the buffer from the last to the first, each 3-byte pixel followed by the alpha
  byte 255; and a trailing mask of \<open>((W + 31) div 32) * 4 * H\<close> zero bytes. A bitmap whose
  width or height is not positive or whose bit depth is not 24 fails with
  \<open>UnsupportedBitmapFormat\<close>, whatever the destination.
\<close>

theorem saveToIco_layout:
  "(bitmap.width this = int W \<and> bitmap.height this = int H \<and> 0 < W \<and> 0 < H
      \<and> bitDepth this = 24 \<and> length (pixels this) = W * H * 3 \<and> W * H * 4 < 2147483648
    \<longrightarrow> (\<exists>out. saveToIco this True = Inr (True, out)
          \<and> le16 out = 0 \<and> le16 (drop 2 out) = 1 \<and> le16 (drop 4 out) = 1
          \<and> unat (out ! 6) = W mod 256 \<and> unat (out ! 7) = H mod 256
          \<and> out ! 8 = 0 \<and> out ! 9 = 0
          \<and> le16 (drop 10 out) = 1 \<and> le16 (drop 12 out) = 32
          \<and> unat (le32 (drop 14 out)) = (40 + W * H * 4 + (W + 31) div 32 * 4 * H) mod 2 ^ 32
          \<and> le32 (drop 18 out) = 22
          \<and> decode_info_header (drop 22 out) =
                \<lparr>biSize = 40, biWidth = word_of_nat W, biHeight = word_of_nat (H * 2),
                 biPlanes = 1, biBitCount = 32, biCompression = 0,
                 biSizeImage = word_of_nat (W * H * 4),
                 biXPelsPerMeter = 0, biYPelsPerMeter = 0, biClrUsed = 0, biClrImportant = 0\<rparr>
          \<and> unat (biWidth (decode_info_header (drop 22 out))) = W
          \<and> unat (biHeight (decode_info_header (drop 22 out))) = 2 * H
          \<and> take (W * H * 4) (drop 62 out) =
                concat (map (\<lambda>r. concat (map (\<lambda>k. take 3 (drop (3 * (r * W + k)) (pixels this)) @ [255])
                                              [0..<W]))
                            (rev [0..<H]))
          \<and> drop (62 + W * H * 4) out = replicate ((W + 31) div 32 * 4 * H) 0
          \<and> length out = 62 + W * H * 4 + (W + 31) div 32 * 4 * H))
   \<and> (bitmap.width this \<le> 0 \<or> bitmap.height this \<le> 0 \<or> bitDepth this \<noteq> 24
    \<longrightarrow> saveToIco this out_is_open = Inl UnsupportedBitmapFormat)
   \<and> (loadFromImage this0 path = Inr (b0, this)
      \<and> bitmap.width this = int W \<and> bitmap.height this = int H \<and> 0 < W \<and> 0 < H
      \<and> bitDepth this = 24 \<and> W * H * 4 < 2147483648
    \<longrightarrow> length (pixels this) = W * H * 3)"
proof (intro conjI impI)
  assume "bitmap.width this = int W \<and> bitmap.height this = int H \<and> 0 < W \<and> 0 < H
      \<and> bitDepth this = 24 \<and> length (pixels this) = W * H * 3 \<and> W * H * 4 < 2147483648"
  then have "bitmap.width this = int W" "bitmap.height this = int H" "0 < W" "0 < H"
    "bitDepth this = 24" "length (pixels this) = W * H * 3" "W * H * 4 < 2147483648"
    by simp_all
  then show "\<exists>out. saveToIco this True = Inr (True, out)
          \<and> le16 out = 0 \<and> le16 (drop 2 out) = 1 \<and> le16 (drop 4 out) = 1
          \<and> unat (out ! 6) = W mod 256 \<and> unat (out ! 7) = H mod 256
          \<and> out ! 8 = 0 \<and> out ! 9 = 0
          \<and> le16 (drop 10 out) = 1 \<and> le16 (drop 12 out) = 32
          \<and> unat (le32 (drop 14 out)) = (40 + W * H * 4 + (W + 31) div 32 * 4 * H) mod 2 ^ 32
          \<and> le32 (drop 18 out) = 22
          \<and> decode_info_header (drop 22 out) =
                \<lparr>biSize = 40, biWidth = word_of_nat W, biHeight = word_of_nat (H * 2),
                 biPlanes = 1, biBitCount = 32, biCompression = 0,
                 biSizeImage = word_of_nat (W * H * 4),
                 biXPelsPerMeter = 0, biYPelsPerMeter = 0, biClrUsed = 0, biClrImportant = 0\<rparr>
          \<and> unat (biWidth (decode_info_header (drop 22 out))) = W
          \<and> unat (biHeight (decode_info_header (drop 22 out))) = 2 * H
          \<and> take (W * H * 4) (drop 62 out) =
                concat (map (\<lambda>r. concat (map (\<lambda>k. take 3 (drop (3 * (r * W + k)) (pixels this)) @ [255])
                                              [0..<W]))
                            (rev [0..<H]))
          \<and> drop (62 + W * H * 4) out = replicate ((W + 31) div 32 * 4 * H) 0
          \<and> length out = 62 + W * H * 4 + (W + 31) div 32 * 4 * H"
    by (rule saveToIco_fields)
next
  assume "bitmap.width this \<le> 0 \<or> bitmap.height this \<le> 0 \<or> bitDepth this \<noteq> 24"
  then show "saveToIco this out_is_open = Inl UnsupportedBitmapFormat"
    by (simp add: saveToIco_def)
next
  assume a: "loadFromImage this0 path = Inr (b0, this)
      \<and> bitmap.width this = int W \<and> bitmap.height this = int H \<and> 0 < W \<and> 0 < H
      \<and> bitDepth this = 24 \<and> W * H * 4 < 2147483648"
  then have ld: "loadFromImage this0 path = Inr (b0, this)"
    and w: "bitmap.width this = int W" and h: "bitmap.height this = int H"
    and d: "bitDepth this = 24" and small: "W * H * 4 < 2147483648"
    by simp_all
  from a have "0 < W * H" by simp
  then have pos: "0 < bitmap.width this * bitmap.height this"
    unfolding w h by (simp only: of_nat_mult [symmetric] of_nat_0_less_iff)
  from small have "W * H < 2147483648" by linarith
  then have "int (W * H) < 2147483648" by linarith
  then have lt: "bitmap.width this * bitmap.height this < 2147483648"
    unfolding w h by (simp only: of_nat_mult)
  have "nat (bitmap.width this * bitmap.height this) = W * H"
    unfolding w h by (simp only: of_nat_mult [symmetric] nat_int)
  with loadFromImage_buffer_length [OF ld pos lt]
  show "length (pixels this) = W * H * 3"
    by (simp add: d)
qed

theorem saveToIco_layout_witness:
  "(\<exists>out. saveToIco \<lparr>bitmap.width = 2, height = 2, bitDepth = 24,
       pixels = [7, 8, 9, 10, 11, 12, 1, 2, 3, 4, 5, 6]\<rparr> True = Inr (True, out)
      \<and> unat (le32 (drop 14 out)) = 64
      \<and> take 16 (drop 62 out) = [1, 2, 3, 255, 4, 5, 6, 255, 7, 8, 9, 255, 10, 11, 12, 255]
      \<and> drop 78 out = replicate 8 0)
   \<and> saveToIco default_bitmap True = Inl UnsupportedBitmapFormat
   \<and> loadFromImage default_bitmap (Some
     [66, 77, 70, 0, 0, 0, 0, 0, 0, 0, 54, 0, 0, 0, 40, 0, 0, 0, 2, 0, 0, 0, 2, 0, 0, 0, 1,
      0, 24, 0, 0, 0, 0, 0, 0, 0, 0, 0, 0, 0, 0, 0, 0, 0, 0, 0, 0, 0, 0, 0, 0, 0, 0, 0, 1,
      2, 3, 4, 5, 6, 0, 0, 7, 8, 9, 10, 11, 12, 0, 0])
     = Inr (True, \<lparr>bitmap.width = 2, height = 2, bitDepth = 24,
       pixels = [7, 8, 9, 10, 11, 12, 1, 2, 3, 4, 5, 6]\<rparr>)
   \<and> length (pixels \<lparr>bitmap.width = 2, height = 2, bitDepth = 24,
       pixels = [7, 8, 9, 10, 11, 12, 1, 2, 3, 4, 5, 6 :: byte]\<rparr>) = 2 * 2 * 3"
proof -
  let ?b = "\<lparr>bitmap.width = 2, height = 2, bitDepth = 24,
       pixels = [7, 8, 9, 10, 11, 12, 1, 2, 3, 4, 5, 6]\<rparr>"
  have h: "bitmap.width ?b = int 2 \<and> bitmap.height ?b = int 2 \<and> (0::nat) < 2 \<and> (0::nat) < 2
      \<and> bitDepth ?b = 24 \<and> length (pixels ?b) = 2 * 2 * 3 \<and> (2::nat) * 2 * 4 < 2147483648"
    by simp
  from saveToIco_layout [of ?b 2 2 True] h
  have "\<exists>out. saveToIco ?b True = Inr (True, out)
      \<and> unat (le32 (drop 14 out)) = (40 + 2 * 2 * 4 + (2 + 31) div 32 * 4 * 2) mod 2 ^ 32
      \<and> take (2 * 2 * 4) (drop 62 out) =
            concat (map (\<lambda>r. concat (map (\<lambda>k. take 3 (drop (3 * (r * 2 + k)) (pixels ?b)) @ [255])
                                          [0..<2]))
                        (rev [0..<2]))
      \<and> drop (62 + 2 * 2 * 4) out = replicate ((2 + 31) div 32 * 4 * 2) 0"
    by blast
  then have a: "\<exists>out. saveToIco ?b True = Inr (True, out)
      \<and> unat (le32 (drop 14 out)) = 64
      \<and> take 16 (drop 62 out) = [1, 2, 3, 255, 4, 5, 6, 255, 7, 8, 9, 255, 10, 11, 12, 255]
      \<and> drop 78 out = replicate 8 0"
    by (simp add: upt_0_2)
  have "bitmap.width default_bitmap \<le> 0 \<or> bitmap.height default_bitmap \<le> 0
      \<or> bitDepth default_bitmap \<noteq> 24"
    by (simp add: default_bitmap_def)
  with saveToIco_layout [of default_bitmap 0 0 True]
  have "saveToIco default_bitmap True = Inl UnsupportedBitmapFormat"
    by blast
  note u = this
  have l: "loadFromImage default_bitmap (Some
     [66, 77, 70, 0, 0, 0, 0, 0, 0, 0, 54, 0, 0, 0, 40, 0, 0, 0, 2, 0, 0, 0, 2, 0, 0, 0, 1,
      0, 24, 0, 0, 0, 0, 0, 0, 0, 0, 0, 0, 0, 0, 0, 0, 0, 0, 0, 0, 0, 0, 0, 0, 0, 0, 0, 1,
      2, 3, 4, 5, 6, 0, 0, 7, 8, 9, 10, 11, 12, 0, 0])
     = Inr (True, ?b)"
    by (rule load_2x2)
  with saveToIco_layout [of ?b 2 2 True default_bitmap "Some
     [66, 77, 70, 0, 0, 0, 0, 0, 0, 0, 54, 0, 0, 0, 40, 0, 0, 0, 2, 0, 0, 0, 2, 0, 0, 0, 1,
      0, 24, 0, 0, 0, 0, 0, 0, 0, 0, 0, 0, 0, 0, 0, 0, 0, 0, 0, 0, 0, 0, 0, 0, 0, 0, 0, 1,
      2, 3, 4, 5, 6, 0, 0, 7, 8, 9, 10, 11, 12, 0, 0]" True]
  have "length (pixels ?b) = 2 * 2 * 3"
    by simp
  with a u l show ?thesis by blast
qed

text \<open>
  The claim as stated, with \<open>imageSize\<close> equal to the sum itself, fails for a bitmap 1 pixel
  wide and 536870911 pixels high: no \<^verbatim>\<open>int\<close> operation overflows
  (\<open>1 * 536870911 * 4 = 2147483644\<close>), the sum is 4294967328, and the 32-bit field of the
  written entry holds 32.
\<close>

theorem saveToIco_image_size_counterexample:
  "\<not> isl (saveToIco \<lparr>bitmap.width = 1, height = 536870911, bitDepth = 24,
       pixels = replicate 1610612733 0\<rparr> True)
   \<and> unat (le32 (drop 14 (snd (projr (saveToIco \<lparr>bitmap.width = 1, height = 536870911, bitDepth = 24,
       pixels = replicate 1610612733 0\<rparr> True))))) = 32
   \<and> (32 :: nat) \<noteq> 40 + 1 * 536870911 * 4 + (1 + 31) div 32 * 4 * 536870911"
proof -
  let ?b = "\<lparr>bitmap.width = 1, height = 536870911, bitDepth = 24,
       pixels = replicate 1610612733 0\<rparr>"
  have "\<exists>out. saveToIco ?b True = Inr (True, out)
          \<and> unat (le32 (drop 14 out))
              = (40 + 1 * 536870911 * 4 + (1 + 31) div 32 * 4 * 536870911) mod 2 ^ 32"
    by (rule saveToIco_dir_size) simp_all
  then obtain out where o: "saveToIco ?b True = Inr (True, out)"
    and "unat (le32 (drop 14 out))
              = (40 + 1 * 536870911 * 4 + (1 + 31) div 32 * 4 * 536870911) mod 2 ^ 32"
    by blast
  then have "unat (le32 (drop 14 out)) = 32" by simp
  with o show ?thesis by simp
qed

subsection \<open>The written ICO read back\<close>

lemma saveToIco_reader:
  assumes "saveToIco this out_is_open = Inr (b, out)"
  shows "22 \<le> length out" and "le16 (drop 4 out) = 1" and "le32 (drop 18 out) = 22"
    and "icon_ctor (Some out) =
         (if unat (le32 (drop 14 out)) \<le> length (drop 22 out)
          then Inr \<lparr>resource_header = \<lparr>header.reserved = 0, type = 1, entries_count = 1\<rparr>,
                    resource_entries =
                      [\<lparr>entry.width = out ! 6, height = out ! 7, color_count = 0, reserved = 0,
                         planes = 1, bit_count = 32, resource_size = le32 (drop 14 out),
                         icon_id = 1\<rparr>],
                    images = [take (unat (le32 (drop 14 out))) (drop 22 out)]\<rparr>
          else Inl TruncatedImageData)"
proof -
  from saveToIco_shape [OF assms] obtain X rest where
    out: "out = (bytes16 0 @ bytes16 1 @ bytes16 1)
            @ ([word_of_int (bitmap.width this), word_of_int (bitmap.height this), 0, 0]
               @ bytes16 1 @ bytes16 32 @ bytes32 X @ bytes32 22)
            @ rest"
    by blast
  show "22 \<le> length out" by (simp add: out)
  show "le16 (drop 4 out) = 1" by (simp add: out)
  show "le32 (drop 18 out) = 22" by (simp add: out)
  have x: "le32 (drop 14 out) = X" by (simp add: out)
  have r: "drop 22 out = rest" by (simp add: out)
  have a: "out ! 6 = word_of_int (bitmap.width this)" by (simp add: out nth_append)
  have c: "out ! 7 = word_of_int (bitmap.height this)" by (simp add: out nth_append)
  show "icon_ctor (Some out) =
         (if unat (le32 (drop 14 out)) \<le> length (drop 22 out)
          then Inr \<lparr>resource_header = \<lparr>header.reserved = 0, type = 1, entries_count = 1\<rparr>,
                    resource_entries =
                      [\<lparr>entry.width = out ! 6, height = out ! 7, color_count = 0, reserved = 0,
                         planes = 1, bit_count = 32, resource_size = le32 (drop 14 out),
                         icon_id = 1\<rparr>],
                    images = [take (unat (le32 (drop 14 out))) (drop 22 out)]\<rparr>
          else Inl TruncatedImageData)"
    unfolding x r a c by (subst out) (rule icon_ctor_single)
qed

text \<open>
  Claim C10. Whenever \<^verbatim>\<open>saveToIco\<close> returns, the file it wrote has one directory entry whose
  \<open>image_offset\<close> field is exactly 22, the size of the 6-byte header and the 16-byte entry, and
  the image payload begins at byte 22, right after the entry. The icon reader run on that
  file therefore takes its single image at the position the offset names: the image is the
  first \<open>image_size\<close> bytes from byte 22 on. When the sizes fit their types, the reader
  accepts the file and the image is the whole payload (info header, color plane and mask).
  \<^verbatim>\<open>from_bmp\<close> is the reader applied to what the writer wrote for the loaded bitmap.
\<close>

theorem saveToIco_contiguous_payload:
  "(saveToIco this out_is_open = Inr (b, out) \<longrightarrow>
       22 \<le> length out \<and> le16 (drop 4 out) = 1 \<and> le32 (drop 18 out) = 22
     \<and> icon_ctor (Some out) =
         (if unat (le32 (drop 14 out)) \<le> length (drop 22 out)
          then Inr \<lparr>resource_header = \<lparr>header.reserved = 0, type = 1, entries_count = 1\<rparr>,
                    resource_entries =
                      [\<lparr>entry.width = out ! 6, height = out ! 7, color_count = 0, reserved = 0,
                         planes = 1, bit_count = 32, resource_size = le32 (drop 14 out),
                         icon_id = 1\<rparr>],
                    images = [take (unat (le32 (drop 14 out))) (drop 22 out)]\<rparr>
          else Inl TruncatedImageData))
   \<and> (bitmap.width this' = int W \<and> bitmap.height this' = int H \<and> 0 < W \<and> 0 < H
      \<and> bitDepth this' = 24 \<and> length (pixels this') = W * H * 3 \<and> W * H * 4 < 2147483648
      \<and> 40 + W * H * 4 + (W + 31) div 32 * 4 * H < 4294967296
     \<longrightarrow> (\<exists>out' ic. saveToIco this' True = Inr (True, out')
            \<and> icon_ctor (Some out') = Inr ic
            \<and> images ic = [drop 22 out']
            \<and> length (drop 22 out') = 40 + W * H * 4 + (W + 31) div 32 * 4 * H))
   \<and> (loadFromImage default_bitmap bmp_path = Inr (True, bmp)
      \<and> saveToIco bmp temp_is_open = Inr (True, temp_ico)
     \<longrightarrow> from_bmp bmp_path temp_is_open = icon_ctor (Some temp_ico))"
proof (intro conjI impI)
  assume a: "saveToIco this out_is_open = Inr (b, out)"
  show "22 \<le> length out" by (rule saveToIco_reader(1) [OF a])
  show "le16 (drop 4 out) = 1" by (rule saveToIco_reader(2) [OF a])
  show "le32 (drop 18 out) = 22" by (rule saveToIco_reader(3) [OF a])
  show "icon_ctor (Some out) =
         (if unat (le32 (drop 14 out)) \<le> length (drop 22 out)
          then Inr \<lparr>resource_header = \<lparr>header.reserved = 0, type = 1, entries_count = 1\<rparr>,
                    resource_entries =
                      [\<lparr>entry.width = out ! 6, height = out ! 7, color_count = 0, reserved = 0,
                         planes = 1, bit_count = 32, resource_size = le32 (drop 14 out),
                         icon_id = 1\<rparr>],
                    images = [take (unat (le32 (drop 14 out))) (drop 22 out)]\<rparr>
          else Inl TruncatedImageData)"
    by (rule saveToIco_reader(4) [OF a])
next
  assume "bitmap.width this' = int W \<and> bitmap.height this' = int H \<and> 0 < W \<and> 0 < H
      \<and> bitDepth this' = 24 \<and> length (pixels this') = W * H * 3 \<and> W * H * 4 < 2147483648
      \<and> 40 + W * H * 4 + (W + 31) div 32 * 4 * H < 4294967296"
  then have hyps: "bitmap.width this' = int W" "bitmap.height this' = int H" "0 < W" "0 < H"
    "bitDepth this' = 24" "length (pixels this') = W * H * 3" "W * H * 4 < 2147483648"
    and fits: "40 + W * H * 4 + (W + 31) div 32 * 4 * H < 4294967296"
    by simp_all
  from saveToIco_fields [OF hyps] obtain out' where
    o: "saveToIco this' True = Inr (True, out')"
    and sz: "unat (le32 (drop 14 out')) = (40 + W * H * 4 + (W + 31) div 32 * 4 * H) mod 2 ^ 32"
    and ln: "length out' = 62 + W * H * 4 + (W + 31) div 32 * 4 * H"
    by blast
  from fits have "(40 + W * H * 4 + (W + 31) div 32 * 4 * H) mod 2 ^ 32
      = 40 + W * H * 4 + (W + 31) div 32 * 4 * H"
    by simp
  with sz have sz': "unat (le32 (drop 14 out')) = 40 + W * H * 4 + (W + 31) div 32 * 4 * H"
    by simp
  from ln have ld: "length (drop 22 out') = 40 + W * H * 4 + (W + 31) div 32 * 4 * H"
    by simp
  from saveToIco_reader(4) [OF o] sz' ld
  have "icon_ctor (Some out') =
      Inr \<lparr>resource_header = \<lparr>header.reserved = 0, type = 1, entries_count = 1\<rparr>,
           resource_entries =
             [\<lparr>entry.width = out' ! 6, height = out' ! 7, color_count = 0, reserved = 0,
                planes = 1, bit_count = 32, resource_size = le32 (drop 14 out'),
                icon_id = 1\<rparr>],
           images = [drop 22 out']\<rparr>"
    by simp
  with o ld show "\<exists>out' ic. saveToIco this' True = Inr (True, out')
            \<and> icon_ctor (Some out') = Inr ic
            \<and> images ic = [drop 22 out']
            \<and> length (drop 22 out') = 40 + W * H * 4 + (W + 31) div 32 * 4 * H"
    by (intro exI [of _ out']) simp
next
  assume "loadFromImage default_bitmap bmp_path = Inr (True, bmp)
      \<and> saveToIco bmp temp_is_open = Inr (True, temp_ico)"
  then show "from_bmp bmp_path temp_is_open = icon_ctor (Some temp_ico)"
    by (simp add: from_bmp_def)
qed

theorem saveToIco_contiguous_payload_witness:
  "saveToIco \<lparr>bitmap.width = 2, height = 2, bitDepth = 24,
       pixels = [7, 8, 9, 10, 11, 12, 1, 2, 3, 4, 5, 6]\<rparr> True = Inr (True,
         [0, 0, 1, 0, 1, 0, 2, 2, 0, 0, 1, 0, 32, 0, 64, 0, 0, 0, 22, 0, 0, 0, 40, 0, 0, 0,
          2, 0, 0, 0, 4, 0, 0, 0, 1, 0, 32, 0, 0, 0, 0, 0, 16, 0, 0, 0, 0, 0, 0, 0, 0, 0,
          0, 0, 0, 0, 0, 0, 0, 0, 0, 0, 1, 2, 3, 255, 4, 5, 6, 255, 7, 8, 9, 255, 10, 11,
          12, 255] @ replicate 8 0)
   \<and> le32 (drop 18 (
         [0, 0, 1, 0, 1, 0, 2, 2, 0, 0, 1, 0, 32, 0, 64, 0, 0, 0, 22, 0, 0, 0, 40, 0, 0, 0,
          2, 0, 0, 0, 4, 0, 0, 0, 1, 0, 32, 0, 0, 0, 0, 0, 16, 0, 0, 0, 0, 0, 0, 0, 0, 0,
          0, 0, 0, 0, 0, 0, 0, 0, 0, 0, 1, 2, 3, 255, 4, 5, 6, 255, 7, 8, 9, 255, 10, 11,
          12, 255] @ replicate 8 0)) = 22
   \<and> (\<exists>ic. from_bmp (Some
     [66, 77, 70, 0, 0, 0, 0, 0, 0, 0, 54, 0, 0, 0, 40, 0, 0, 0, 2, 0, 0, 0, 2, 0, 0, 0, 1,
      0, 24, 0, 0, 0, 0, 0, 0, 0, 0, 0, 0, 0, 0, 0, 0, 0, 0, 0, 0, 0, 0, 0, 0, 0, 0, 0, 1,
      2, 3, 4, 5, 6, 0, 0, 7, 8, 9, 10, 11, 12, 0, 0]) True = Inr ic
        \<and> images ic = [drop 22 (
         [0, 0, 1, 0, 1, 0, 2, 2, 0, 0, 1, 0, 32, 0, 64, 0, 0, 0, 22, 0, 0, 0, 40, 0, 0, 0,
          2, 0, 0, 0, 4, 0, 0, 0, 1, 0, 32, 0, 0, 0, 0, 0, 16, 0, 0, 0, 0, 0, 0, 0, 0, 0,
          0, 0, 0, 0, 0, 0, 0, 0, 0, 0, 1, 2, 3, 255, 4, 5, 6, 255, 7, 8, 9, 255, 10, 11,
          12, 255] @ replicate 8 0)])"
proof -
  let ?b = "\<lparr>bitmap.width = 2, height = 2, bitDepth = 24,
       pixels = [7, 8, 9, 10, 11, 12, 1, 2, 3, 4, 5, 6]\<rparr>"
  let ?out = "
         [0, 0, 1, 0, 1, 0, 2, 2, 0, 0, 1, 0, 32, 0, 64, 0, 0, 0, 22, 0, 0, 0, 40, 0, 0, 0,
          2, 0, 0, 0, 4, 0, 0, 0, 1, 0, 32, 0, 0, 0, 0, 0, 16, 0, 0, 0, 0, 0, 0, 0, 0, 0,
          0, 0, 0, 0, 0, 0, 0, 0, 0, 0, 1, 2, 3, 255, 4, 5, 6, 255, 7, 8, 9, 255, 10, 11,
          12, 255] @ replicate 8 0"
  let ?bmp = "
     [66, 77, 70, 0, 0, 0, 0, 0, 0, 0, 54, 0, 0, 0, 40, 0, 0, 0, 2, 0, 0, 0, 2, 0, 0, 0, 1,
      0, 24, 0, 0, 0, 0, 0, 0, 0, 0, 0, 0, 0, 0, 0, 0, 0, 0, 0, 0, 0, 0, 0, 0, 0, 0, 0, 1,
      2, 3, 4, 5, 6, 0, 0, 7, 8, 9, 10, 11, 12, 0, 0]"
  have h1: "saveToIco ?b True = Inr (True, ?out)"
    by (rule save_2x2)
  have h2: "loadFromImage default_bitmap (Some ?bmp) = Inr (True, ?b)"
    by (rule load_2x2)
  have h3: "bitmap.width ?b = int 2 \<and> bitmap.height ?b = int 2 \<and> (0::nat) < 2 \<and> (0::nat) < 2
      \<and> bitDepth ?b = 24 \<and> length (pixels ?b) = 2 * 2 * 3 \<and> (2::nat) * 2 * 4 < 2147483648
      \<and> (40::nat) + 2 * 2 * 4 + (2 + 31) div 32 * 4 * 2 < 4294967296"
    by simp
  note t = saveToIco_contiguous_payload [of ?b True True ?out ?b 2 2 "Some ?bmp" ?b True ?out]
  from t h1 have a: "le32 (drop 18 ?out) = 22"
    by blast
  from t h3 obtain out' ic where "saveToIco ?b True = Inr (True, out')"
    and c: "icon_ctor (Some out') = Inr ic" "images ic = [drop 22 out']"
    by blast
  with h1 have o: "out' = ?out"
    by simp
  from t h1 h2 have "from_bmp (Some ?bmp) True = icon_ctor (Some ?out)"
    by blast
  with c o have "\<exists>ic. from_bmp (Some ?bmp) True = Inr ic \<and> images ic = [drop 22 ?out]"
    by simp
  with h1 a show ?thesis
    by blast
qed

end
